theory Spec2Isabelle
  imports
    Main
    "HOL-Library.AList"
    "HOL-Library.Char_ord"
    "HOL-Library.List_Lexorder"
begin

section \<open>Strings\<close>

text \<open>
  A Python \<open>str\<close> is modelled as a HOL \<open>string\<close>; a \<open>char\<close> stands for a code
  point below 256. Strings are compared as Python compares them, code point by code point
  (the lexicographic order on lists over the order on characters).
\<close>

definition is_alnum :: "char \<Rightarrow> bool" where
  \<comment> \<open>the character class \<open>[a-zA-Z0-9]\<close>\<close>
  "is_alnum c =
     (let n = (of_char c :: nat)
      in (97 \<le> n \<and> n \<le> 122) \<or> (65 \<le> n \<and> n \<le> 90) \<or> (48 \<le> n \<and> n \<le> 57))"

definition is_space :: "char \<Rightarrow> bool" where
  \<comment> \<open>\<open>str.isspace\<close> on code points below 256, the characters \<open>str.strip()\<close> removes\<close>
  "is_space c =
     (let n = (of_char c :: nat)
      in (9 \<le> n \<and> n \<le> 13) \<or> (28 \<le> n \<and> n \<le> 32) \<or> n = 133 \<or> n = 160)"

definition strip :: "string \<Rightarrow> string" where
  "strip s = rev (dropWhile is_space (rev (dropWhile is_space s)))"

definition lower_char :: "char \<Rightarrow> char" where
  "lower_char c =
     (let n = (of_char c :: nat)
      in if (65 \<le> n \<and> n \<le> 90) \<or> (192 \<le> n \<and> n \<le> 222 \<and> n \<noteq> 215)
         then char_of (n + 32) else c)"

definition lower :: "string \<Rightarrow> string" where
  "lower s = map lower_char s"

definition endswith :: "string \<Rightarrow> string \<Rightarrow> bool" where
  "endswith s suffix =
     (length suffix \<le> length s \<and> drop (length s - length suffix) s = suffix)"

fun str_join :: "string \<Rightarrow> string list \<Rightarrow> string" where
  \<comment> \<open>\<open>sep.join(parts)\<close>\<close>
  "str_join sep [] = []"
| "str_join sep [p] = p"
| "str_join sep (p # q # ps) = p @ sep @ str_join sep (q # ps)"

definition path_join :: "string \<Rightarrow> string \<Rightarrow> string" where
  \<comment> \<open>\<open>os.path.join(a, b)\<close> of \<open>posixpath\<close>\<close>
  "path_join a b =
     (if b \<noteq> [] \<and> hd b = CHR ''/'' then b
      else if a = [] \<or> last a = CHR ''/'' then a @ b
      else a @ ''/'' @ b)"

section \<open>PDFManager.matches_pattern\<close>

text \<open>
  \<open>re.match(r'^([a-zA-Z0-9] ){2,}', filename)\<close>: the group is repeated greedily, so the
  match is the longest run of pairs (one alphanumeric character, one space) at the start,
  and it succeeds when the run has at least two pairs.
\<close>

fun pair_run :: "string \<Rightarrow> string" where
  "pair_run (c # d # rest) =
     (if is_alnum c \<and> d = CHR '' '' then c # d # pair_run rest else [])"
| "pair_run _ = []"

definition matches_pattern :: "string \<Rightarrow> string option" where
  "matches_pattern filename =
     (let group0 = pair_run filename
      in if 4 \<le> length group0 then Some (strip group0) else None)"

section \<open>Walking the directory tree\<close>

text \<open>
  A directory has a name, the names of its files and its subdirectories. \<open>os.walk(top)\<close>
  yields \<open>(dirpath, dirnames, filenames)\<close> top-down; the path of a subdirectory is
  \<open>os.path.join(dirpath, name)\<close>.
\<close>

datatype dir_tree = Dir (dir_name: string) (dir_files: "string list") (dir_subdirs: "dir_tree list")

fun walk :: "string \<Rightarrow> dir_tree \<Rightarrow> (string \<times> string list \<times> string list) list" where
  "walk dirpath (Dir name filenames subdirs) =
     (dirpath, map dir_name subdirs, filenames) #
     concat (map (\<lambda>d. walk (path_join dirpath (dir_name d)) d) subdirs)"

text \<open>
  In \<open>scan_pdfs\<close> the loop body removes \<open>'RAG'\<close> from \<open>dirs\<close> (its first occurrence),
  so that directory is not descended into.
\<close>

fun walk_pruned :: "string \<Rightarrow> dir_tree \<Rightarrow> (string \<times> string list \<times> string list) list" where
  "walk_pruned dirpath (Dir name filenames subdirs) =
     (dirpath, remove1 ''RAG'' (map dir_name subdirs), filenames) #
     concat (map (\<lambda>d. walk_pruned (path_join dirpath (dir_name d)) d)
               (filter (\<lambda>d. dir_name d \<noteq> ''RAG'') subdirs))"

section \<open>PDFManager.scan_all_pdfs\<close>

text \<open>
  A \<open>datetime\<close> is represented by its rendering under \<open>'%Y-%m-%d %H:%M:%S'\<close>, the only way
  the code observes it. \<open>getstat filepath\<close> is the outcome of \<open>os.path.getsize\<close>,
  \<open>getctime\<close> and \<open>getmtime\<close> on the file: \<open>None\<close> when one of them raises \<open>OSError\<close>, which
  the loop catches, skipping the file.

  A record is the tuple \<open>(base_filename, tok_prefix, folder, date_created, date_modified)\<close>.
  The dictionary \<open>pdf_dict\<close> keeps its keys in insertion order: an association list.
\<close>

type_synonym file_info = "string \<times> string \<times> string \<times> string \<times> string"

type_synonym pdf_dict = "(int \<times> file_info list) list"

definition split_filename :: "string \<Rightarrow> string \<times> string" where
  \<comment> \<open>\<open>(tok_prefix, base_filename)\<close>; an empty or missing prefix is falsy\<close>
  "split_filename filename =
     (case matches_pattern filename of
        Some tok_prefix \<Rightarrow>
          if tok_prefix \<noteq> [] then (tok_prefix, strip (drop (length tok_prefix) filename))
          else ([], filename)
      | None \<Rightarrow> ([], filename))"

definition scan_file ::
  "(string \<Rightarrow> (int \<times> string \<times> string) option) \<Rightarrow> string \<Rightarrow> string \<Rightarrow> pdf_dict \<Rightarrow> pdf_dict" where
  "scan_file getstat dirpath filename pdf_dict =
     (if endswith (lower filename) ''.pdf'' then
        (let filepath = path_join dirpath filename;
             (tok_prefix, base_filename) = split_filename filename
         in case getstat filepath of
              None \<Rightarrow> pdf_dict
            | Some (file_size, date_created, date_modified) \<Rightarrow>
                (let file_info = (base_filename, tok_prefix, dirpath, date_created, date_modified)
                 in case map_of pdf_dict file_size of
                      None \<Rightarrow> pdf_dict @ [(file_size, [file_info])]
                    | Some infos \<Rightarrow> AList.update file_size (infos @ [file_info]) pdf_dict))
      else pdf_dict)"

definition scan_dir ::
  "(string \<Rightarrow> (int \<times> string \<times> string) option) \<Rightarrow>
   string \<times> string list \<times> string list \<Rightarrow> pdf_dict \<Rightarrow> pdf_dict" where
  "scan_dir getstat entry pdf_dict =
     (case entry of (dirpath, dirnames, filenames) \<Rightarrow>
        fold (scan_file getstat dirpath) filenames pdf_dict)"

definition scan_all_pdfs ::
  "(string \<Rightarrow> (int \<times> string \<times> string) option) \<Rightarrow> string \<Rightarrow> dir_tree \<Rightarrow> pdf_dict" where
  "scan_all_pdfs getstat dropbox_path tree =
     fold (scan_dir getstat) (walk dropbox_path tree) []"

section \<open>PDFManager.scan_pdfs\<close>

text \<open>
  \<open>os.path.relpath(root, start)\<close> for a \<open>root\<close> that the walk from \<open>start\<close> yields: \<open>'.'\<close>
  for \<open>start\<close> itself, otherwise what follows \<open>start\<close> and the separator.
\<close>

definition relpath :: "string \<Rightarrow> string \<Rightarrow> string" where
  "relpath root start =
     (if root = start then ''.''
      else if start \<noteq> [] \<and> last start = CHR ''/'' then drop (length start) root
      else drop (Suc (length start)) root)"

definition scan_pdfs_file ::
  "(string \<Rightarrow> string) \<Rightarrow> string \<Rightarrow> string \<Rightarrow> string \<Rightarrow>
   (string \<times> string \<times> string \<times> string) list \<Rightarrow> (string \<times> string \<times> string \<times> string) list" where
  "scan_pdfs_file get_pdf_title dropbox_path root file results =
     (if endswith (lower file) ''.pdf'' then
        (case matches_pattern file of
           Some pattern \<Rightarrow>
             if pattern \<noteq> [] then
               (let filename_remainder = strip (drop (length pattern) file);
                    full_path = path_join root file;
                    relative_folder = relpath root dropbox_path;
                    relative_folder = (if relative_folder = ''.'' then ''[root]'' else relative_folder);
                    internal_title = get_pdf_title full_path
                in results @ [(pattern, filename_remainder, relative_folder, internal_title)])
             else results
         | None \<Rightarrow> results)
      else results)"

definition scan_pdfs ::
  "(string \<Rightarrow> string) \<Rightarrow> string \<Rightarrow> dir_tree \<Rightarrow> (string \<times> string \<times> string \<times> string) list" where
  "scan_pdfs get_pdf_title dropbox_path tree =
     fold (\<lambda>entry results.
             case entry of (root, dirs, files) \<Rightarrow>
               fold (scan_pdfs_file get_pdf_title dropbox_path root) files results)
          (walk_pruned dropbox_path tree) []"

section \<open>PDFManager.create_json_output\<close>

record location =
  loc_folder :: string
  loc_created :: string
  loc_modified :: string

text \<open>A file entry read from an older document may lack the \<open>ToK\<close> key.\<close>

record file_entry =
  fe_filename :: string
  fe_ToK :: "string option"
  fe_locations :: "location list"

record size_group =
  sg_size :: int
  sg_files :: "file_entry list"

text \<open>
  \<open>files_by_name\<close> maps a base filename to its set of prefixes and its list of locations,
  in insertion order. The set is a list without duplicates; it is read only through
  \<open>sorted\<close>.
\<close>

type_synonym files_by_name = "(string \<times> string list \<times> location list) list"

definition add_file_info :: "file_info \<Rightarrow> files_by_name \<Rightarrow> files_by_name" where
  "add_file_info info files_by_name =
     (case info of (base_filename, tok_prefix, folder, date_created, date_modified) \<Rightarrow>
        (let (tok_prefixes, locations) =
               (case map_of files_by_name base_filename of None \<Rightarrow> ([], []) | Some v \<Rightarrow> v);
             tok_prefixes = (if tok_prefix \<noteq> [] then List.insert tok_prefix tok_prefixes
                             else tok_prefixes);
             location_obj = \<lparr>loc_folder = folder, loc_created = date_created,
                             loc_modified = date_modified\<rparr>
         in AList.update base_filename (tok_prefixes, locations @ [location_obj]) files_by_name))"

definition files_array :: "file_info list \<Rightarrow> file_entry list" where
  "files_array file_list =
     map (\<lambda>(base_filename, tok_prefixes, locations).
            \<lparr>fe_filename = base_filename,
             fe_ToK = Some (str_join '';'' (sort tok_prefixes)),
             fe_locations = locations\<rparr>)
         (fold add_file_info file_list [])"

definition create_json_output :: "pdf_dict \<Rightarrow> bool \<Rightarrow> size_group list" where
  "create_json_output pdf_dict only_duplicates =
     (let data_to_process =
            (if only_duplicates then filter (\<lambda>(size, files). 1 < length files) pdf_dict
             else pdf_dict)
      in map (\<lambda>(size, file_list). \<lparr>sg_size = size, sg_files = files_array file_list\<rparr>)
           (sort_key fst data_to_process))"

section \<open>PDFManager.compare_pdf_scans\<close>

text \<open>
  The entries of \<open>differences\<close> are formatted strings in the source; here each is the
  constructor of its format with the values the format string interpolates:
  \<open>NEW filename tok size num_locations\<close>, \<open>REMOVED filename tok size num_locations\<close>,
  \<open>TOK_CHANGED filename old_tok new_tok\<close>, \<open>MOVED_COPIED filename folder\<close>,
  \<open>MOVED_DELETED filename folder\<close>, \<open>MODIFIED filename folder\<close>, and \<open>FIRST_SCAN\<close> for
  the line reported when there is no previous document.
\<close>

datatype difference =
    FIRST_SCAN
  | NEW string string int nat
  | REMOVED string string int nat
  | TOK_CHANGED string string string
  | MOVED_COPIED string string
  | MOVED_DELETED string string
  | MODIFIED string string

text \<open>
  The lookup structure \<open>{size: {filename: {'ToK': str, 'locations': [locations]}}}\<close>.
  Assigning to a key that exists keeps its position. \<open>file_entry.get('ToK', '')\<close> reads a
  missing key as the empty string.
\<close>

type_synonym file_data = "string \<times> location list"

type_synonym scan_data = "(int \<times> (string \<times> file_data) list) list"

definition get_ToK :: "file_entry \<Rightarrow> string" where
  "get_ToK file_entry = (case fe_ToK file_entry of None \<Rightarrow> [] | Some tok \<Rightarrow> tok)"

definition index_files :: "file_entry list \<Rightarrow> (string \<times> file_data) list" where
  "index_files entries =
     fold (\<lambda>file_entry by_name.
             AList.update (fe_filename file_entry)
               (get_ToK file_entry, fe_locations file_entry) by_name)
          entries []"

definition index_json :: "size_group list \<Rightarrow> scan_data" where
  "index_json json =
     fold (\<lambda>size_group data.
             AList.update (sg_size size_group) (index_files (sg_files size_group)) data)
          json []"

text \<open>
  Python does not fix the order in which a \<open>set\<close> is iterated. The model iterates a set
  difference or intersection in the order of its left operand; the theorems below state
  only facts that do not depend on that order.
\<close>

definition report_new :: "int \<Rightarrow> (string \<times> file_data) list \<Rightarrow> difference list" where
  "report_new sz entries =
     map (\<lambda>(filename, tok, locations). NEW filename tok sz (length locations)) entries"

definition report_removed :: "int \<Rightarrow> (string \<times> file_data) list \<Rightarrow> difference list" where
  "report_removed sz entries =
     map (\<lambda>(filename, tok, locations). REMOVED filename tok sz (length locations)) entries"

definition compare_dates :: "string \<Rightarrow> location list \<Rightarrow> location \<Rightarrow> difference list" where
  \<comment> \<open>the body of \<open>for loc in new_locations\<close>\<close>
  "compare_dates filename old_locations loc =
     (let folder = loc_folder loc
      in if folder \<in> set (map loc_folder old_locations) then
           (case find (\<lambda>l. loc_folder l = folder) old_locations of
              None \<Rightarrow> []
            | Some old_loc \<Rightarrow>
                if loc_created loc \<noteq> loc_created old_loc \<or>
                   loc_modified loc \<noteq> loc_modified old_loc
                then [MODIFIED filename folder] else [])
         else [])"

definition compare_file :: "string \<Rightarrow> file_data \<Rightarrow> file_data \<Rightarrow> difference list" where
  \<comment> \<open>the body of \<open>for filename in old_files & new_files\<close>\<close>
  "compare_file filename old_file_data new_file_data =
     (case (old_file_data, new_file_data) of ((old_tok, old_locations), (new_tok, new_locations)) \<Rightarrow>
        (let old_folders = remdups (map loc_folder old_locations);
             new_folders = remdups (map loc_folder new_locations)
         in (if old_tok \<noteq> new_tok then [TOK_CHANGED filename old_tok new_tok] else []) @
            map (MOVED_COPIED filename) (filter (\<lambda>f. f \<notin> set old_folders) new_folders) @
            map (MOVED_DELETED filename) (filter (\<lambda>f. f \<notin> set new_folders) old_folders) @
            concat (map (compare_dates filename old_locations) new_locations)))"

definition compare_size ::
  "int \<Rightarrow> (string \<times> file_data) list \<Rightarrow> (string \<times> file_data) list \<Rightarrow> difference list" where
  \<comment> \<open>the body of \<open>for size in old_sizes & new_sizes\<close>\<close>
  "compare_size sz old_files new_files =
     report_new sz (filter (\<lambda>(filename, d). map_of old_files filename = None) new_files) @
     report_removed sz (filter (\<lambda>(filename, d). map_of new_files filename = None) old_files) @
     concat (map (\<lambda>(filename, old_file_data).
                    case map_of new_files filename of
                      None \<Rightarrow> []
                    | Some new_file_data \<Rightarrow> compare_file filename old_file_data new_file_data)
                 old_files)"

definition compare_data :: "scan_data \<Rightarrow> scan_data \<Rightarrow> difference list" where
  "compare_data old_data new_data =
     concat (map (\<lambda>(size, files). report_new size files)
               (filter (\<lambda>(size, files). map_of old_data size = None) new_data)) @
     concat (map (\<lambda>(size, files). report_removed size files)
               (filter (\<lambda>(size, files). map_of new_data size = None) old_data)) @
     concat (map (\<lambda>(size, old_files).
                    case map_of new_data size of
                      None \<Rightarrow> []
                    | Some new_files \<Rightarrow> compare_size size old_files new_files)
                 old_data)"

definition compare_pdf_scans ::
  "size_group list option \<Rightarrow> pdf_dict \<Rightarrow> bool \<Rightarrow> bool \<times> difference list" where
  \<comment> \<open>\<open>(has_changes, differences)\<close>\<close>
  "compare_pdf_scans old_json new_pdf_dict only_duplicates =
     (case old_json of
        None \<Rightarrow> (True, [FIRST_SCAN])
      | Some old \<Rightarrow>
          (let new_json = create_json_output new_pdf_dict only_duplicates;
               differences = compare_data (index_json old) (index_json new_json)
           in (0 < length differences, differences)))"

section \<open>PDFManager.load_pdf_scan_json and save_pdf_scan_json\<close>

text \<open>
  A value that \<open>json.load\<close> returns: \<open>None\<close>, a \<open>bool\<close>, an \<open>int\<close>, a \<open>float\<close> (kept as its
  literal), a \<open>str\<close>, a \<open>list\<close> or a \<open>dict\<close> with its keys in the order of the document.
\<close>

datatype json =
    JNull
  | JBool bool
  | JInt int
  | JFloat string
  | JString string
  | JArray "json list"
  | JObject "(string \<times> json) list"

text \<open>
  What a file holds is the serialisation of a catalog, which \<open>json.load\<close> returns and
  \<open>json.dump\<close> writes (\<open>Json\<close>), or valid JSON that is not a catalog, which \<open>json.load\<close>
  returns as the value it denotes (\<open>Other_Json\<close>), or other text, on which \<open>json.load\<close>
  raises (\<open>Text\<close>). A write to a path in \<open>denied\<close> raises \<open>OSError\<close>. \<open>fs_log\<close> records the
  operations on the file system in the order they happen; \<open>console\<close> records what is
  printed.
\<close>

datatype content = Json "size_group list" | Other_Json json | Text string

datatype fs_event = Mkdir string | Copy string string | Write string | Rename string string

datatype py_exception = OSError string

record file_system =
  files :: "string \<rightharpoonup> content"
  dirs :: "string list"
  denied :: "string list"
  fs_log :: "fs_event list"
  console :: "string list"

definition scan_json_path :: "string \<Rightarrow> string" where
  \<comment> \<open>\<open>self.dropbox_path / "pdfmanager" / "pdf-files-by-size.json"\<close>\<close>
  "scan_json_path dropbox_path = dropbox_path @ ''/pdfmanager/pdf-files-by-size.json''"

text \<open>
  What the process is refused when it reads: \<open>os.stat\<close> raises \<open>PermissionError\<close>, an
  \<open>OSError\<close>, on a path in \<open>stat_refused\<close> (a folder on the way to it cannot be searched),
  and \<open>open(path, 'r')\<close> raises on a path in \<open>open_refused\<close>.
\<close>

record access =
  stat_refused :: "string list"
  open_refused :: "string list"

text \<open>
  The value \<open>load_pdf_scan_json\<close> returns when it is not \<open>None\<close>: what \<open>json.load\<close> gave,
  a catalog or another value, with no check of its shape.
\<close>

datatype loaded = Catalog "size_group list" | Parsed json

definition print_load_error :: "file_system \<Rightarrow> file_system" where
  \<comment> \<open>\<open>print(f"Error loading JSON file: {e}")\<close>\<close>
  "print_load_error fs = fs\<lparr>console := console fs @ [''Error loading JSON file'']\<rparr>"

text \<open>
  \<open>json_path.exists()\<close> stands before the \<open>try\<close>: \<open>Path.exists\<close> returns \<open>False\<close> for a
  missing path and lets any other \<open>OSError\<close> of \<open>os.stat\<close> through, so that one leaves the
  function. Inside the \<open>try\<close>, \<open>open\<close> raises on a directory and on a file that may not be
  read, and \<open>json.load\<close> raises on text that is not JSON; the \<open>except\<close> clause prints and
  returns \<open>None\<close>. A document holding \<open>null\<close> is returned as Python's \<open>None\<close>.
\<close>

definition load_pdf_scan_json ::
  "string \<Rightarrow> access \<Rightarrow> file_system \<Rightarrow> file_system \<times> (py_exception + loaded option)" where
  "load_pdf_scan_json dropbox_path acc fs =
     (let json_path = scan_json_path dropbox_path
      in if json_path \<in> set (stat_refused acc) then (fs, Inl (OSError json_path))
         else case files fs json_path of
           None \<Rightarrow>
             if json_path \<in> set (dirs fs) then (print_load_error fs, Inr None)
             else (fs, Inr None)
         | Some held \<Rightarrow>
             if json_path \<in> set (open_refused acc) then (print_load_error fs, Inr None)
             else (case held of
                     Json data \<Rightarrow> (fs, Inr (Some (Catalog data)))
                   | Other_Json v \<Rightarrow> (fs, Inr (if v = JNull then None else Some (Parsed v)))
                   | Text t \<Rightarrow> (print_load_error fs, Inr None)))"

record save_stats =
  st_output_path :: string
  st_size_groups :: nat
  st_file_entries :: nat
  st_total_locations :: nat
  st_backup_path :: "string option"

definition backup_folder_path :: "string \<Rightarrow> string" where
  \<comment> \<open>\<open>output_path.parent / "pdf-files-by-size-old-files"\<close>\<close>
  "backup_folder_path dropbox_path = dropbox_path @ ''/pdfmanager/pdf-files-by-size-old-files''"

definition backup_file_path :: "string \<Rightarrow> string \<Rightarrow> string" where
  \<comment> \<open>\<open>backup_folder / f"pdf-files-by-size_{timestamp}.json"\<close>\<close>
  "backup_file_path dropbox_path timestamp =
     backup_folder_path dropbox_path @ ''/pdf-files-by-size_'' @ timestamp @ ''.json''"

definition mkdir_exist_ok :: "string \<Rightarrow> file_system \<Rightarrow> file_system \<times> py_exception option" where
  "mkdir_exist_ok folder fs =
     (if folder \<in> set (dirs fs) then (fs, None)
      else if folder \<in> set (denied fs) then (fs, Some (OSError folder))
      else (fs\<lparr>dirs := dirs fs @ [folder], fs_log := fs_log fs @ [Mkdir folder]\<rparr>, None))"

definition copy2 :: "string \<Rightarrow> string \<Rightarrow> file_system \<Rightarrow> file_system \<times> py_exception option" where
  "copy2 src dst fs =
     (case files fs src of
        None \<Rightarrow> (fs, Some (OSError src))
      | Some data \<Rightarrow>
          if dst \<in> set (denied fs) then (fs, Some (OSError dst))
          else (fs\<lparr>files := (files fs)(dst \<mapsto> data), fs_log := fs_log fs @ [Copy src dst]\<rparr>, None))"

definition write_json ::
  "string \<Rightarrow> size_group list \<Rightarrow> file_system \<Rightarrow> file_system \<times> py_exception option" where
  \<comment> \<open>\<open>with open(path, 'w') as f: json.dump(data, f)\<close>\<close>
  "write_json path data fs =
     (if path \<in> set (denied fs) then (fs, Some (OSError path))
      else (fs\<lparr>files := (files fs)(path \<mapsto> Json data), fs_log := fs_log fs @ [Write path]\<rparr>, None))"

definition backup_old_file ::
  "string \<Rightarrow> string \<Rightarrow> file_system \<Rightarrow> file_system \<times> py_exception option" where
  \<comment> \<open>the body of \<open>if backup_old and output_path.exists()\<close>\<close>
  "backup_old_file dropbox_path timestamp fs =
     (case mkdir_exist_ok (backup_folder_path dropbox_path) fs of
        (fs1, Some e) \<Rightarrow> (fs1, Some e)
      | (fs1, None) \<Rightarrow>
          copy2 (scan_json_path dropbox_path) (backup_file_path dropbox_path timestamp) fs1)"

text \<open>
  \<open>timestamp\<close> is \<open>datetime.now().strftime("%Y-%m-%d_%H-%M-%S")\<close>. The result is the file
  system after the call with either the exception that left the function or the tuple
  \<open>(output_path, stats, backup_path)\<close>.
\<close>

definition save_pdf_scan_json ::
  "string \<Rightarrow> string \<Rightarrow> pdf_dict \<Rightarrow> bool \<Rightarrow> bool \<Rightarrow> file_system \<Rightarrow>
   file_system \<times> (py_exception + string \<times> save_stats \<times> string option)" where
  "save_pdf_scan_json dropbox_path timestamp pdf_dict only_duplicates backup_old fs =
     (let json_data = create_json_output pdf_dict only_duplicates;
          output_path = scan_json_path dropbox_path;
          do_backup = (backup_old \<and> files fs output_path \<noteq> None);
          backup_path = (if do_backup then Some (backup_file_path dropbox_path timestamp) else None)
      in case (if do_backup then backup_old_file dropbox_path timestamp fs else (fs, None)) of
           (fs1, Some e) \<Rightarrow> (fs1, Inl e)
         | (fs1, None) \<Rightarrow>
             (case write_json output_path json_data fs1 of
                (fs2, Some e) \<Rightarrow> (fs2, Inl e)
              | (fs2, None) \<Rightarrow>
                  (fs2, Inr (output_path,
                     \<lparr>st_output_path = output_path,
                      st_size_groups = length json_data,
                      st_file_entries = sum_list (map (\<lambda>g. length (sg_files g)) json_data),
                      st_total_locations =
                        sum_list (map (\<lambda>g. sum_list (map (\<lambda>e. length (fe_locations e)) (sg_files g)))
                                    json_data),
                      st_backup_path = backup_path\<rparr>,
                     backup_path))))"

section \<open>The ToK entry list\<close>

text \<open>
  An entry of \<open>tok_data['ToK']\<close> is a dictionary read with \<open>.get\<close>, so either key may be
  missing. \<open>x.get('prefix', '')\<close> is the sort key.
\<close>

record tok_entry =
  te_prefix :: "string option"
  te_string :: "string option"

definition get_prefix :: "tok_entry \<Rightarrow> string" where
  "get_prefix x = (case te_prefix x of None \<Rightarrow> [] | Some code \<Rightarrow> code)"

definition get_string :: "tok_entry \<Rightarrow> string" where
  "get_string x = (case te_string x of None \<Rightarrow> [] | Some label \<Rightarrow> label)"

definition add_tok_entry :: "string \<Rightarrow> string \<Rightarrow> tok_entry list \<Rightarrow> tok_entry list" where
  "add_tok_entry code label tok =
     sort_key get_prefix (tok @ [\<lparr>te_prefix = Some code, te_string = Some label\<rparr>])"

fun update_tok_entry :: "string \<Rightarrow> string \<Rightarrow> string \<Rightarrow> tok_entry list \<Rightarrow> bool \<times> tok_entry list" where
  "update_tok_entry old_code new_code new_label [] = (False, [])"
| "update_tok_entry old_code new_code new_label (item # items) =
     (if te_prefix item = Some old_code
      then (True, item\<lparr>te_prefix := Some new_code, te_string := Some new_label\<rparr> # items)
      else (case update_tok_entry old_code new_code new_label items of
              (found, items') \<Rightarrow> (found, item # items')))"

definition delete_tok_entry :: "string \<Rightarrow> tok_entry list \<Rightarrow> bool \<times> tok_entry list" where
  \<comment> \<open>\<open>list.remove(item)\<close> removes the first element equal to \<open>item\<close>\<close>
  "delete_tok_entry code tok =
     (case find (\<lambda>item. te_prefix item = Some code) tok of
        None \<Rightarrow> (False, tok)
      | Some item \<Rightarrow> (True, remove1 item tok))"

definition sorted_by_prefix :: "tok_entry list \<Rightarrow> bool" where
  "sorted_by_prefix tok = sorted (map get_prefix tok)"

section \<open>PDFManagerWindow.load_tok_codes\<close>

text \<open>
  The tree widget is the list of the items created so far, each with its code, its label
  and the item it was added to as a child: the position of that item in the list, or
  \<open>None\<close> for a top-level item. \<open>code_to_item\<close> maps a code to the position of the item
  last stored under it. A tree item is truthy, so \<open>if parent_item\<close> tests that the lookup
  found one.
\<close>

type_synonym tree_item = "string \<times> string \<times> nat option"

definition place_item ::
  "tok_entry \<Rightarrow> tree_item list \<times> (string \<rightharpoonup> nat) \<Rightarrow> tree_item list \<times> (string \<rightharpoonup> nat)" where
  "place_item item st =
     (case st of (tok_tree, code_to_item) \<Rightarrow>
        (let code = get_prefix item;
             label = get_string item;
             parent_item = (if 1 < length code then code_to_item (butlast code) else None)
         in (tok_tree @ [(code, label, parent_item)], code_to_item(code \<mapsto> length tok_tree))))"

definition place_items :: "tok_entry list \<Rightarrow> tree_item list" where
  "place_items sorted_items = fst (fold place_item sorted_items ([], Map.empty))"

definition load_tok_codes :: "tok_entry list \<Rightarrow> tree_item list option" where
  \<comment> \<open>\<open>None\<close>: no items, the tree is left as it was\<close>
  "load_tok_codes tok_items =
     (if tok_items = [] then None
      else Some (place_items (sort_key get_prefix tok_items)))"

section \<open>Renaming files\<close>

definition format_code :: "string \<Rightarrow> string" where
  \<comment> \<open>\<open>' '.join(tok_code) + ' '\<close>\<close>
  "format_code tok_code = str_join '' '' (map (\<lambda>c. [c]) tok_code) @ '' ''"

text \<open>
  Each call of \<open>show_message\<close> is the constructor of its text, with the filename the text
  interpolates.
\<close>

datatype ui_message =
    No_File_Selected
  | No_ToK_Selected
  | Invalid_Selection
  | Could_Not_Read_ToK_Code
  | Could_Not_Read_Filename
  | File_Not_In_Database
  | File_Not_Found_On_Disk string
  | File_Already_Exists string
  | Error_Renaming_File py_exception
  | Filename_Empty
  | Original_Not_Found
  | No_Bare_Files

definition os_rename :: "string \<Rightarrow> string \<Rightarrow> file_system \<Rightarrow> file_system \<times> py_exception option" where
  "os_rename src dst fs =
     (case files fs src of
        None \<Rightarrow> (fs, Some (OSError src))
      | Some data \<Rightarrow>
          if dst \<in> set (denied fs) then (fs, Some (OSError dst))
          else (fs\<lparr>files := ((files fs)(src := None))(dst \<mapsto> data),
                   fs_log := fs_log fs @ [Rename src dst]\<rparr>, None))"

record window =
  disk :: file_system
  current_dir :: string
  bare_pdf_files :: "nat \<rightharpoonup> string"
  file_paths :: "nat \<rightharpoonup> string"
  files_table :: "nat \<rightharpoonup> string"
  files_being_edited :: "nat list"
  messages :: "ui_message list"
  status_bar :: "string list"

definition show_message :: "ui_message \<Rightarrow> window \<Rightarrow> window" where
  "show_message m w = w\<lparr>messages := messages w @ [m]\<rparr>"

text \<open>
  \<open>listing\<close> is what \<open>os.listdir(current_dir)\<close> reports, restricted to regular files, each
  with its \<open>os.path.getmtime\<close>. \<open>sort(key, reverse=True)\<close> keeps the order of equal keys.
\<close>

definition get_bare_pdfs ::
  "(string \<times> int) list \<Rightarrow> (nat \<rightharpoonup> string) \<Rightarrow> (nat \<times> string) list \<times> (nat \<rightharpoonup> string)" where
  "get_bare_pdfs listing old_index =
     (let pdf_files = filter (\<lambda>(f, mtime). endswith (lower f) ''.pdf'') listing;
          bare_pdfs = filter (\<lambda>(f, mtime). case matches_pattern f of None \<Rightarrow> True | Some p \<Rightarrow> p = [])
                        pdf_files
      in if bare_pdfs = [] then ([], old_index)
         else (let bare_pdfs_sorted = map fst (rev (sort_key snd (rev bare_pdfs)));
                   indexed = zip [1 ..< Suc (length bare_pdfs_sorted)] bare_pdfs_sorted
               in (indexed, map_of indexed)))"

definition show_bare_pdfs :: "(string \<times> int) list \<Rightarrow> window \<Rightarrow> window" where
  "show_bare_pdfs listing w =
     (case get_bare_pdfs listing (bare_pdf_files w) of
        (bare_pdfs, index) \<Rightarrow>
          if bare_pdfs = []
          then show_message No_Bare_Files
                 (w\<lparr>bare_pdf_files := index, files_table := Map.empty, file_paths := Map.empty\<rparr>)
          else w\<lparr>bare_pdf_files := index,
                 files_table := map_of (zip [0 ..< length bare_pdfs] (map snd bare_pdfs)),
                 file_paths := map_of (zip [0 ..< length bare_pdfs]
                                  (map (\<lambda>(idx, filename). path_join (current_dir w) filename) bare_pdfs)),
                 status_bar := status_bar w @ [''Loaded bare PDF files'']\<rparr>)"

text \<open>
  \<open>add_tok_prefix_to_file\<close>: \<open>selected\<close> tells whether the files table has a selection,
  \<open>tok_item\<close> is the text of the current item of the ToK tree (\<open>None\<close> without one) and
  \<open>file_row\<close> is \<open>currentRow()\<close>, negative without a current row.
\<close>

definition add_tok_prefix_to_file :: "bool \<Rightarrow> string option \<Rightarrow> int \<Rightarrow> window \<Rightarrow> window" where
  "add_tok_prefix_to_file selected tok_item file_row w =
     (if \<not> selected then show_message No_File_Selected w
      else case tok_item of
        None \<Rightarrow> show_message No_ToK_Selected w
      | Some tok_text \<Rightarrow>
          if file_row < 0 then show_message Invalid_Selection w
          else
            (let tok_code = strip tok_text; row = nat file_row
             in if tok_code = [] then show_message Could_Not_Read_ToK_Code w
                else case files_table w row of
                  None \<Rightarrow> show_message Could_Not_Read_Filename w
                | Some old_text \<Rightarrow>
                    (let file_index = row + 1
                     in case bare_pdf_files w file_index of
                          None \<Rightarrow> show_message File_Not_In_Database w
                        | Some actual_old_filename \<Rightarrow>
                            (let formatted_code = format_code tok_code;
                                 new_filename = formatted_code @ actual_old_filename;
                                 old_path = path_join (current_dir w) actual_old_filename;
                                 new_path = path_join (current_dir w) new_filename
                             in if files (disk w) old_path = None
                                then show_message (File_Not_Found_On_Disk actual_old_filename) w
                                else if files (disk w) new_path \<noteq> None
                                then show_message (File_Already_Exists new_filename) w
                                else case os_rename old_path new_path (disk w) of
                                  (fs', Some e) \<Rightarrow> show_message (Error_Renaming_File e) (w\<lparr>disk := fs'\<rparr>)
                                | (fs', None) \<Rightarrow>
                                    w\<lparr>disk := fs',
                                      bare_pdf_files := (bare_pdf_files w)(file_index \<mapsto> new_filename),
                                      files_table := (files_table w)(row \<mapsto> new_filename),
                                      file_paths := (file_paths w)(row \<mapsto> new_path),
                                      status_bar := status_bar w @ [''Added prefix to file'']\<rparr>))))"

text \<open>
  \<open>on_file_item_changed\<close> for the item in \<open>row\<close>; the \<open>finally\<close> clause discards the row
  from \<open>files_being_edited\<close> on every path that entered the \<open>try\<close>.
\<close>

definition rename_edited_row :: "(string \<times> int) list \<Rightarrow> nat \<Rightarrow> string \<Rightarrow> window \<Rightarrow> window" where
  \<comment> \<open>the body of the \<open>try\<close> after \<open>files_being_edited.add(row_id)\<close>\<close>
  "rename_edited_row listing row text w =
     (let new_filename = strip text
      in if new_filename = []
         then show_bare_pdfs listing (show_message Filename_Empty w)
         else case bare_pdf_files w (row + 1) of
           None \<Rightarrow> show_message Original_Not_Found w
         | Some old_filename \<Rightarrow>
             if old_filename = [] then show_message Original_Not_Found w
             else if old_filename = new_filename then w
             else
               (let old_path = path_join (current_dir w) old_filename;
                    new_path = path_join (current_dir w) new_filename
                in if files (disk w) old_path = None
                   then show_bare_pdfs listing (show_message (File_Not_Found_On_Disk old_filename) w)
                   else if files (disk w) new_path \<noteq> None
                   then show_bare_pdfs listing (show_message (File_Already_Exists new_filename) w)
                   else case os_rename old_path new_path (disk w) of
                     (fs', Some e) \<Rightarrow>
                       show_bare_pdfs listing (show_message (Error_Renaming_File e) (w\<lparr>disk := fs'\<rparr>))
                   | (fs', None) \<Rightarrow>
                       w\<lparr>disk := fs',
                         bare_pdf_files := (bare_pdf_files w)(row + 1 \<mapsto> new_filename),
                         file_paths := (file_paths w)(row \<mapsto> new_path),
                         status_bar := status_bar w @ [''Renamed'']\<rparr>))"

definition on_file_item_changed :: "(string \<times> int) list \<Rightarrow> nat \<Rightarrow> window \<Rightarrow> window" where
  "on_file_item_changed listing row w =
     (case files_table w row of
        None \<Rightarrow> w
      | Some text \<Rightarrow>
          if row \<in> set (files_being_edited w) then w
          else (let w1 = rename_edited_row listing row text
                           (w\<lparr>files_being_edited := List.insert row (files_being_edited w)\<rparr>)
                in w1\<lparr>files_being_edited := removeAll row (files_being_edited w1)\<rparr>))"

section \<open>Notions for the statements about a scan\<close>

text \<open>
  \<open>all_records\<close> is the set of the records of a scan, over all sizes; \<open>new_records\<close> is the
  set of the records of one file: its one record when it is a PDF file whose size and dates
  can be read, none otherwise.
\<close>

definition all_records :: "pdf_dict \<Rightarrow> file_info set" where
  "all_records d = set (concat (map snd d))"

definition new_records ::
  "(string \<Rightarrow> (int \<times> string \<times> string) option) \<Rightarrow> string \<Rightarrow> string \<Rightarrow> file_info set" where
  "new_records getstat dirpath filename =
     {(base_filename, tok_prefix, dirpath, date_created, date_modified)
        | base_filename tok_prefix date_created date_modified file_size.
        endswith (lower filename) ''.pdf'' \<and>
        getstat (path_join dirpath filename) = Some (file_size, date_created, date_modified) \<and>
        split_filename filename = (tok_prefix, base_filename)}"

section \<open>Evaluation on the example filenames\<close>

lemmas string_defs =
  strip_def is_space_def is_alnum_def lower_def lower_char_def endswith_def path_join_def

lemma split_filename_prefixed: "split_filename ''A B report.pdf'' = (''A B'', ''report.pdf'')"
  by (simp add: split_filename_def matches_pattern_def string_defs)

lemma split_filename_bare: "split_filename ''report.pdf'' = ([], ''report.pdf'')"
  by (simp add: split_filename_def matches_pattern_def string_defs)

lemma is_pdf_prefixed: "endswith (lower ''A B report.pdf'') ''.pdf''"
  by (simp add: string_defs)

lemma is_pdf_bare: "endswith (lower ''report.pdf'') ''.pdf''"
  by (simp add: string_defs)

lemmas example_files = split_filename_prefixed split_filename_bare is_pdf_prefixed is_pdf_bare

lemmas scan_defs = scan_all_pdfs_def scan_dir_def scan_file_def

lemmas json_defs = create_json_output_def files_array_def add_file_info_def

section \<open>The catalog of a scan\<close>

text \<open>
  C1 (as amended). A Dropbox folder holds \<open>"A B report.pdf"\<close> of size 100 in \<open>folder1\<close> and
  \<open>"report.pdf"\<close> of size 100 in \<open>folder2\<close>. The catalog of its scan with duplicates-only
  filtering is exactly one size group, of size 100, with exactly one entry, of base
  filename \<open>"report.pdf"\<close>, whose locations are the two folders in the order of the scan.
  The \<open>ToK\<close> field of the entry is \<open>"A B"\<close>: the matched prefix with its trailing space
  stripped and the space between its characters kept.
\<close>

theorem end_to_end_catalog:
  assumes "getstat (path_join (path_join dropbox_path ''folder1'') ''A B report.pdf'') = Some (100, c1, m1)"
    and "getstat (path_join (path_join dropbox_path ''folder2'') ''report.pdf'') = Some (100, c2, m2)"
  shows "create_json_output
           (scan_all_pdfs getstat dropbox_path
              (Dir name [] [Dir ''folder1'' [''A B report.pdf''] [], Dir ''folder2'' [''report.pdf''] []]))
           True =
         [\<lparr>sg_size = 100,
           sg_files =
             [\<lparr>fe_filename = ''report.pdf'', fe_ToK = Some ''A B'',
               fe_locations =
                 [\<lparr>loc_folder = path_join dropbox_path ''folder1'', loc_created = c1, loc_modified = m1\<rparr>,
                  \<lparr>loc_folder = path_join dropbox_path ''folder2'', loc_created = c2, loc_modified = m2\<rparr>]\<rparr>]\<rparr>]"
  using assms by (simp add: scan_defs json_defs example_files)

theorem end_to_end_catalog_witness:
  "create_json_output
     (scan_all_pdfs
        (map_of [(''/Dropbox/folder1/A B report.pdf'', (100, ''2024-01-01 10:00:00'', ''2024-01-02 10:00:00'')),
                 (''/Dropbox/folder2/report.pdf'', (100, ''2024-02-01 10:00:00'', ''2024-02-02 10:00:00''))])
        ''/Dropbox''
        (Dir ''Dropbox'' [] [Dir ''folder1'' [''A B report.pdf''] [], Dir ''folder2'' [''report.pdf''] []]))
     True =
   [\<lparr>sg_size = 100,
     sg_files =
       [\<lparr>fe_filename = ''report.pdf'', fe_ToK = Some ''A B'',
         fe_locations =
           [\<lparr>loc_folder = ''/Dropbox/folder1'', loc_created = ''2024-01-01 10:00:00'',
             loc_modified = ''2024-01-02 10:00:00''\<rparr>,
            \<lparr>loc_folder = ''/Dropbox/folder2'', loc_created = ''2024-02-01 10:00:00'',
             loc_modified = ''2024-02-02 10:00:00''\<rparr>]\<rparr>]\<rparr>]"
  using end_to_end_catalog [of
      "map_of [(''/Dropbox/folder1/A B report.pdf'', (100, ''2024-01-01 10:00:00'', ''2024-01-02 10:00:00'')),
               (''/Dropbox/folder2/report.pdf'', (100, ''2024-02-01 10:00:00'', ''2024-02-02 10:00:00''))]"
      "''/Dropbox''" "''2024-01-01 10:00:00''" "''2024-01-02 10:00:00''"
      "''2024-02-01 10:00:00''" "''2024-02-02 10:00:00''" "''Dropbox''"]
  by (simp add: path_join_def)

text \<open>
  C1 as stated asks for the \<open>ToK\<close> field \<open>"AB"\<close>. On that scan the only \<open>ToK\<close> field of the
  catalog is not \<open>"AB"\<close>.
\<close>

theorem end_to_end_tok_counterexample:
  "map fe_ToK (concat (map sg_files
     (create_json_output
        (scan_all_pdfs
           (map_of [(''/Dropbox/folder1/A B report.pdf'', (100, ''2024-01-01 10:00:00'', ''2024-01-02 10:00:00'')),
                    (''/Dropbox/folder2/report.pdf'', (100, ''2024-02-01 10:00:00'', ''2024-02-02 10:00:00''))])
           ''/Dropbox''
           (Dir ''Dropbox'' [] [Dir ''folder1'' [''A B report.pdf''] [], Dir ''folder2'' [''report.pdf''] []]))
        True))) \<noteq> [Some ''AB'']"
  by (simp add: scan_defs json_defs example_files path_join_def)

section \<open>Loading the catalog\<close>

text \<open>
  C2 (as amended). The only exception that leaves \<open>load_pdf_scan_json\<close> is the \<open>OSError\<close>
  of the existence check, raised when the path may not be examined. Otherwise the call
  returns. It returns \<open>None\<close> when no document exists at the path. When something exists at
  the path that cannot be opened or is not valid JSON, it prints the error and returns
  \<open>None\<close>. When the document is valid JSON it returns the parsed value without checking
  its structure: a catalog as the catalog, a value of another shape as that value, and
  \<open>null\<close> as \<open>None\<close>, with nothing printed. It leaves the files as they were.
\<close>

theorem load_returns_none_on_unreadable:
  "(scan_json_path dropbox_path \<in> set (stat_refused acc) \<longrightarrow>
      load_pdf_scan_json dropbox_path acc fs = (fs, Inl (OSError (scan_json_path dropbox_path)))) \<and>
   (scan_json_path dropbox_path \<notin> set (stat_refused acc) \<longrightarrow>
      (\<forall>e. snd (load_pdf_scan_json dropbox_path acc fs) \<noteq> Inl e) \<and>
      (files fs (scan_json_path dropbox_path) = None \<and>
       scan_json_path dropbox_path \<notin> set (dirs fs) \<longrightarrow>
         load_pdf_scan_json dropbox_path acc fs = (fs, Inr None)) \<and>
      ((files fs (scan_json_path dropbox_path) = None \<and>
        scan_json_path dropbox_path \<in> set (dirs fs)) \<or>
       (files fs (scan_json_path dropbox_path) \<noteq> None \<and>
        scan_json_path dropbox_path \<in> set (open_refused acc)) \<or>
       (\<exists>t. files fs (scan_json_path dropbox_path) = Some (Text t)) \<longrightarrow>
         load_pdf_scan_json dropbox_path acc fs =
           (fs\<lparr>console := console fs @ [''Error loading JSON file'']\<rparr>, Inr None)) \<and>
      (\<forall>data. files fs (scan_json_path dropbox_path) = Some (Json data) \<and>
         scan_json_path dropbox_path \<notin> set (open_refused acc) \<longrightarrow>
         load_pdf_scan_json dropbox_path acc fs = (fs, Inr (Some (Catalog data)))) \<and>
      (\<forall>v. files fs (scan_json_path dropbox_path) = Some (Other_Json v) \<and>
         scan_json_path dropbox_path \<notin> set (open_refused acc) \<longrightarrow>
         load_pdf_scan_json dropbox_path acc fs =
           (fs, Inr (if v = JNull then None else Some (Parsed v))))) \<and>
   files (fst (load_pdf_scan_json dropbox_path acc fs)) = files fs"
  by (auto simp: load_pdf_scan_json_def print_load_error_def Let_def
        split: option.splits content.splits)

theorem load_returns_none_on_unreadable_witness:
  "load_pdf_scan_json ''/Dropbox'' \<lparr>stat_refused = [], open_refused = []\<rparr>
          \<lparr>files = [''/Dropbox/pdfmanager/pdf-files-by-size.json'' \<mapsto> Text ''[{size: ''],
           dirs = [], denied = [], fs_log = [], console = []\<rparr> =
     (\<lparr>files = [''/Dropbox/pdfmanager/pdf-files-by-size.json'' \<mapsto> Text ''[{size: ''],
           dirs = [], denied = [], fs_log = [], console = [''Error loading JSON file'']\<rparr>, Inr None) \<and>
   load_pdf_scan_json ''/Dropbox'' \<lparr>stat_refused = [], open_refused = []\<rparr>
          \<lparr>files = Map.empty, dirs = [], denied = [], fs_log = [], console = []\<rparr> =
     (\<lparr>files = Map.empty, dirs = [], denied = [], fs_log = [], console = []\<rparr>, Inr None) \<and>
   snd (load_pdf_scan_json ''/Dropbox'' \<lparr>stat_refused = [], open_refused = []\<rparr>
          \<lparr>files = [''/Dropbox/pdfmanager/pdf-files-by-size.json'' \<mapsto> Json []],
           dirs = [], denied = [], fs_log = [], console = []\<rparr>) = Inr (Some (Catalog [])) \<and>
   snd (load_pdf_scan_json ''/Dropbox'' \<lparr>stat_refused = [], open_refused = []\<rparr>
          \<lparr>files = [''/Dropbox/pdfmanager/pdf-files-by-size.json'' \<mapsto> Other_Json JNull],
           dirs = [], denied = [], fs_log = [], console = []\<rparr>) = Inr None \<and>
   snd (load_pdf_scan_json ''/Dropbox'' \<lparr>stat_refused = [], open_refused = [''/Dropbox/pdfmanager/pdf-files-by-size.json'']\<rparr>
          \<lparr>files = [''/Dropbox/pdfmanager/pdf-files-by-size.json'' \<mapsto> Json []],
           dirs = [], denied = [], fs_log = [], console = []\<rparr>) = Inr None \<and>
   snd (load_pdf_scan_json ''/Dropbox'' \<lparr>stat_refused = [''/Dropbox/pdfmanager/pdf-files-by-size.json''], open_refused = []\<rparr>
          \<lparr>files = [''/Dropbox/pdfmanager/pdf-files-by-size.json'' \<mapsto> Json []],
           dirs = [], denied = [], fs_log = [], console = []\<rparr>) = Inl (OSError ''/Dropbox/pdfmanager/pdf-files-by-size.json'')"
  using load_returns_none_on_unreadable [of "''/Dropbox''" "\<lparr>stat_refused = [], open_refused = []\<rparr>"
          "\<lparr>files = [''/Dropbox/pdfmanager/pdf-files-by-size.json'' \<mapsto> Text ''[{size: ''],
           dirs = [], denied = [], fs_log = [], console = []\<rparr>"]
    load_returns_none_on_unreadable [of "''/Dropbox''" "\<lparr>stat_refused = [], open_refused = []\<rparr>"
          "\<lparr>files = Map.empty, dirs = [], denied = [], fs_log = [], console = []\<rparr>"]
    load_returns_none_on_unreadable [of "''/Dropbox''" "\<lparr>stat_refused = [], open_refused = []\<rparr>"
          "\<lparr>files = [''/Dropbox/pdfmanager/pdf-files-by-size.json'' \<mapsto> Json []],
           dirs = [], denied = [], fs_log = [], console = []\<rparr>"]
    load_returns_none_on_unreadable [of "''/Dropbox''" "\<lparr>stat_refused = [], open_refused = []\<rparr>"
          "\<lparr>files = [''/Dropbox/pdfmanager/pdf-files-by-size.json'' \<mapsto> Other_Json JNull],
           dirs = [], denied = [], fs_log = [], console = []\<rparr>"]
    load_returns_none_on_unreadable [of "''/Dropbox''" "\<lparr>stat_refused = [], open_refused = [''/Dropbox/pdfmanager/pdf-files-by-size.json'']\<rparr>"
          "\<lparr>files = [''/Dropbox/pdfmanager/pdf-files-by-size.json'' \<mapsto> Json []],
           dirs = [], denied = [], fs_log = [], console = []\<rparr>"]
    load_returns_none_on_unreadable [of "''/Dropbox''" "\<lparr>stat_refused = [''/Dropbox/pdfmanager/pdf-files-by-size.json''], open_refused = []\<rparr>"
          "\<lparr>files = [''/Dropbox/pdfmanager/pdf-files-by-size.json'' \<mapsto> Json []],
           dirs = [], denied = [], fs_log = [], console = []\<rparr>"]
  by (simp add: scan_json_path_def)

text \<open>
  C2 as stated asks for an error when the document exists and cannot be parsed as the
  expected structure. On a document cut off in the middle the call returns \<open>None\<close>, and on
  a document that holds an object instead of the list of size groups it returns the
  object.
\<close>

theorem load_format_error_counterexample:
  "snd (load_pdf_scan_json ''/Dropbox'' \<lparr>stat_refused = [], open_refused = []\<rparr>
          \<lparr>files = [''/Dropbox/pdfmanager/pdf-files-by-size.json'' \<mapsto> Text ''[{size: ''],
           dirs = [], denied = [], fs_log = [], console = []\<rparr>) = Inr None \<and>
   snd (load_pdf_scan_json ''/Dropbox'' \<lparr>stat_refused = [], open_refused = []\<rparr>
          \<lparr>files = [''/Dropbox/pdfmanager/pdf-files-by-size.json'' \<mapsto>
                      Other_Json (JObject [(''a'', JInt 1)])],
           dirs = [], denied = [], fs_log = [], console = []\<rparr>) = Inr (Some (Parsed (JObject [(''a'', JInt 1)])))"
  by (simp add: load_pdf_scan_json_def print_load_error_def scan_json_path_def)

section \<open>Saving the catalog\<close>

lemma backup_path_neq: "backup_file_path dropbox_path timestamp \<noteq> scan_json_path dropbox_path"
  by (simp add: backup_file_path_def backup_folder_path_def scan_json_path_def)

lemmas save_defs =
  save_pdf_scan_json_def backup_old_file_def mkdir_exist_ok_def copy2_def write_json_def

text \<open>
  C4. When \<open>save_pdf_scan_json\<close> is called with \<open>backup_old\<close> set and a document exists
  at the target path: if the call raises, the live document still holds its prior content
  and no write of the target path has happened; if it returns, the backup path holds the
  prior document's content, the target path holds the new catalog, and the copy to the
  backup path happened before the write of the target path. A backup path that cannot be
  written makes the call raise, and a file system that refuses nothing makes it return.
\<close>

theorem backup_before_overwrite:
  assumes "files fs (scan_json_path dropbox_path) = Some old"
  shows "(case save_pdf_scan_json dropbox_path timestamp pdf_dict only_duplicates True fs of
           (fs', Inl e) \<Rightarrow>
             files fs' (scan_json_path dropbox_path) = Some old \<and>
             Write (scan_json_path dropbox_path) \<notin> set (drop (length (fs_log fs)) (fs_log fs'))
         | (fs', Inr (output_path, stats, backup_path)) \<Rightarrow>
             output_path = scan_json_path dropbox_path \<and>
             backup_path = Some (backup_file_path dropbox_path timestamp) \<and>
             files fs' (backup_file_path dropbox_path timestamp) = Some old \<and>
             files fs' output_path = Some (Json (create_json_output pdf_dict only_duplicates)) \<and>
             (\<exists>pre. fs_log fs' = fs_log fs @ pre @
                      [Copy output_path (backup_file_path dropbox_path timestamp), Write output_path])) \<and>
         (backup_file_path dropbox_path timestamp \<in> set (denied fs) \<longrightarrow>
            (\<exists>e. snd (save_pdf_scan_json dropbox_path timestamp pdf_dict only_duplicates True fs) = Inl e)) \<and>
         (denied fs = [] \<longrightarrow>
            (\<exists>r. snd (save_pdf_scan_json dropbox_path timestamp pdf_dict only_duplicates True fs) = Inr r))"
  using assms backup_path_neq [of dropbox_path timestamp]
  by (auto simp: save_defs Let_def split: option.splits prod.splits if_splits)

theorem backup_before_overwrite_witness:
  "(case save_pdf_scan_json ''/Dropbox'' ''2024-03-01_09-30-00'' [] True True
          \<lparr>files = [''/Dropbox/pdfmanager/pdf-files-by-size.json'' \<mapsto> Text ''old document''],
           dirs = [], denied = [], fs_log = [], console = []\<rparr> of
      (fs', result) \<Rightarrow>
        files fs' ''/Dropbox/pdfmanager/pdf-files-by-size-old-files/pdf-files-by-size_2024-03-01_09-30-00.json''
          = Some (Text ''old document'') \<and>
        files fs' ''/Dropbox/pdfmanager/pdf-files-by-size.json'' = Some (Json []) \<and>
        fs_log fs' =
          [Mkdir ''/Dropbox/pdfmanager/pdf-files-by-size-old-files'',
           Copy ''/Dropbox/pdfmanager/pdf-files-by-size.json''
             ''/Dropbox/pdfmanager/pdf-files-by-size-old-files/pdf-files-by-size_2024-03-01_09-30-00.json'',
           Write ''/Dropbox/pdfmanager/pdf-files-by-size.json'']) \<and>
   (case save_pdf_scan_json ''/Dropbox'' ''2024-03-01_09-30-00'' [] True True
          \<lparr>files = [''/Dropbox/pdfmanager/pdf-files-by-size.json'' \<mapsto> Text ''old document''],
           dirs = [],
           denied = [''/Dropbox/pdfmanager/pdf-files-by-size-old-files/pdf-files-by-size_2024-03-01_09-30-00.json''],
           fs_log = [], console = []\<rparr> of
      (fs', result) \<Rightarrow>
        result = Inl (OSError ''/Dropbox/pdfmanager/pdf-files-by-size-old-files/pdf-files-by-size_2024-03-01_09-30-00.json'') \<and>
        files fs' ''/Dropbox/pdfmanager/pdf-files-by-size.json'' = Some (Text ''old document''))"
  using backup_before_overwrite [of
      "\<lparr>files = [''/Dropbox/pdfmanager/pdf-files-by-size.json'' \<mapsto> Text ''old document''],
        dirs = [], denied = [], fs_log = [], console = []\<rparr>"
      "''/Dropbox''" "Text ''old document''" "''2024-03-01_09-30-00''" "[]" True]
    backup_before_overwrite [of
      "\<lparr>files = [''/Dropbox/pdfmanager/pdf-files-by-size.json'' \<mapsto> Text ''old document''],
        dirs = [],
        denied = [''/Dropbox/pdfmanager/pdf-files-by-size-old-files/pdf-files-by-size_2024-03-01_09-30-00.json''],
        fs_log = [], console = []\<rparr>"
      "''/Dropbox''" "Text ''old document''" "''2024-03-01_09-30-00''" "[]" True]
  by (simp add: save_defs scan_json_path_def backup_file_path_def backup_folder_path_def
        create_json_output_def Let_def)

section \<open>Renaming a file\<close>

lemma disk_show_message: "disk (show_message m w) = disk w"
  by (simp add: show_message_def)

lemma disk_show_bare_pdfs: "disk (show_bare_pdfs listing w) = disk w"
  by (simp add: show_bare_pdfs_def show_message_def split: prod.splits)

lemma messages_show_bare_pdfs: "\<exists>rest. messages (show_bare_pdfs listing w) = messages w @ rest"
  by (simp add: show_bare_pdfs_def show_message_def split: prod.splits)

text \<open>
  C9. Both \<open>add_tok_prefix_to_file\<close> and \<open>on_file_item_changed\<close> check, before the
  rename, that the source file exists and that the destination does not. When the source
  is missing the error reported is \<open>File_Not_Found_On_Disk\<close>, when the destination exists it
  is \<open>File_Already_Exists\<close>, a different message; in both cases the file system is left as
  it was.
\<close>

theorem safe_rename_preconditions:
  "(selected \<and> 0 \<le> file_row \<and> strip tok_text \<noteq> [] \<and> files_table w (nat file_row) = Some shown \<and>
    bare_pdf_files w (nat file_row + 1) = Some old_filename \<and>
    files (disk w) (path_join (current_dir w) old_filename) = None \<longrightarrow>
      add_tok_prefix_to_file selected (Some tok_text) file_row w =
        show_message (File_Not_Found_On_Disk old_filename) w \<and>
      disk (add_tok_prefix_to_file selected (Some tok_text) file_row w) = disk w) \<and>
   (selected \<and> 0 \<le> file_row \<and> strip tok_text \<noteq> [] \<and> files_table w (nat file_row) = Some shown \<and>
    bare_pdf_files w (nat file_row + 1) = Some old_filename \<and>
    files (disk w) (path_join (current_dir w) old_filename) \<noteq> None \<and>
    files (disk w) (path_join (current_dir w) (format_code (strip tok_text) @ old_filename)) \<noteq> None \<longrightarrow>
      add_tok_prefix_to_file selected (Some tok_text) file_row w =
        show_message (File_Already_Exists (format_code (strip tok_text) @ old_filename)) w \<and>
      disk (add_tok_prefix_to_file selected (Some tok_text) file_row w) = disk w) \<and>
   (files_table w row = Some edited \<and> row \<notin> set (files_being_edited w) \<and> strip edited \<noteq> [] \<and>
    bare_pdf_files w (row + 1) = Some old_filename \<and> old_filename \<noteq> [] \<and>
    old_filename \<noteq> strip edited \<and>
    files (disk w) (path_join (current_dir w) old_filename) = None \<longrightarrow>
      disk (on_file_item_changed listing row w) = disk w \<and>
      (\<exists>rest. messages (on_file_item_changed listing row w) =
                messages w @ File_Not_Found_On_Disk old_filename # rest)) \<and>
   (files_table w row = Some edited \<and> row \<notin> set (files_being_edited w) \<and> strip edited \<noteq> [] \<and>
    bare_pdf_files w (row + 1) = Some old_filename \<and> old_filename \<noteq> [] \<and>
    old_filename \<noteq> strip edited \<and>
    files (disk w) (path_join (current_dir w) old_filename) \<noteq> None \<and>
    files (disk w) (path_join (current_dir w) (strip edited)) \<noteq> None \<longrightarrow>
      disk (on_file_item_changed listing row w) = disk w \<and>
      (\<exists>rest. messages (on_file_item_changed listing row w) =
                messages w @ File_Already_Exists (strip edited) # rest))"
proof (intro conjI impI)
  assume a: "selected \<and> 0 \<le> file_row \<and> strip tok_text \<noteq> [] \<and> files_table w (nat file_row) = Some shown \<and>
    bare_pdf_files w (nat file_row + 1) = Some old_filename \<and>
    files (disk w) (path_join (current_dir w) old_filename) = None"
  then show r: "add_tok_prefix_to_file selected (Some tok_text) file_row w =
        show_message (File_Not_Found_On_Disk old_filename) w"
    by (auto simp: add_tok_prefix_to_file_def Let_def)
  show "disk (add_tok_prefix_to_file selected (Some tok_text) file_row w) = disk w"
    by (simp add: r disk_show_message)
next
  assume a: "selected \<and> 0 \<le> file_row \<and> strip tok_text \<noteq> [] \<and> files_table w (nat file_row) = Some shown \<and>
    bare_pdf_files w (nat file_row + 1) = Some old_filename \<and>
    files (disk w) (path_join (current_dir w) old_filename) \<noteq> None \<and>
    files (disk w) (path_join (current_dir w) (format_code (strip tok_text) @ old_filename)) \<noteq> None"
  then show r: "add_tok_prefix_to_file selected (Some tok_text) file_row w =
        show_message (File_Already_Exists (format_code (strip tok_text) @ old_filename)) w"
    by (auto simp: add_tok_prefix_to_file_def Let_def)
  show "disk (add_tok_prefix_to_file selected (Some tok_text) file_row w) = disk w"
    by (simp add: r disk_show_message)
next
  assume a: "files_table w row = Some edited \<and> row \<notin> set (files_being_edited w) \<and> strip edited \<noteq> [] \<and>
    bare_pdf_files w (row + 1) = Some old_filename \<and> old_filename \<noteq> [] \<and>
    old_filename \<noteq> strip edited \<and>
    files (disk w) (path_join (current_dir w) old_filename) = None"
  then have r: "on_file_item_changed listing row w =
      (let w1 = show_bare_pdfs listing (show_message (File_Not_Found_On_Disk old_filename)
                  (w\<lparr>files_being_edited := List.insert row (files_being_edited w)\<rparr>))
       in w1\<lparr>files_being_edited := removeAll row (files_being_edited w1)\<rparr>)"
    by (auto simp: on_file_item_changed_def rename_edited_row_def Let_def)
  show "disk (on_file_item_changed listing row w) = disk w"
    by (simp add: r Let_def disk_show_bare_pdfs disk_show_message)
  show "\<exists>rest. messages (on_file_item_changed listing row w) =
                messages w @ File_Not_Found_On_Disk old_filename # rest"
    using messages_show_bare_pdfs [of listing "show_message (File_Not_Found_On_Disk old_filename)
                  (w\<lparr>files_being_edited := List.insert row (files_being_edited w)\<rparr>)"]
    by (auto simp: r Let_def show_message_def)
next
  assume a: "files_table w row = Some edited \<and> row \<notin> set (files_being_edited w) \<and> strip edited \<noteq> [] \<and>
    bare_pdf_files w (row + 1) = Some old_filename \<and> old_filename \<noteq> [] \<and>
    old_filename \<noteq> strip edited \<and>
    files (disk w) (path_join (current_dir w) old_filename) \<noteq> None \<and>
    files (disk w) (path_join (current_dir w) (strip edited)) \<noteq> None"
  then have r: "on_file_item_changed listing row w =
      (let w1 = show_bare_pdfs listing (show_message (File_Already_Exists (strip edited))
                  (w\<lparr>files_being_edited := List.insert row (files_being_edited w)\<rparr>))
       in w1\<lparr>files_being_edited := removeAll row (files_being_edited w1)\<rparr>)"
    by (auto simp: on_file_item_changed_def rename_edited_row_def Let_def)
  show "disk (on_file_item_changed listing row w) = disk w"
    by (simp add: r Let_def disk_show_bare_pdfs disk_show_message)
  show "\<exists>rest. messages (on_file_item_changed listing row w) =
                messages w @ File_Already_Exists (strip edited) # rest"
    using messages_show_bare_pdfs [of listing "show_message (File_Already_Exists (strip edited))
                  (w\<lparr>files_being_edited := List.insert row (files_being_edited w)\<rparr>)"]
    by (auto simp: r Let_def show_message_def)
qed

theorem safe_rename_preconditions_witness:
  "messages (add_tok_prefix_to_file True (Some ''A'') 0
       \<lparr>disk = \<lparr>files = [''/d/a.pdf'' \<mapsto> Text ''x'', ''/d/A a.pdf'' \<mapsto> Text ''y''],
                dirs = [], denied = [], fs_log = [], console = []\<rparr>,
        current_dir = ''/d'', bare_pdf_files = [1 \<mapsto> ''a.pdf''], file_paths = [0 \<mapsto> ''/d/a.pdf''],
        files_table = [0 \<mapsto> ''A a.pdf''], files_being_edited = [], messages = [], status_bar = []\<rparr>) = [File_Already_Exists ''A a.pdf''] \<and>
   fs_log (disk (on_file_item_changed [] 0
       \<lparr>disk = \<lparr>files = [''/d/a.pdf'' \<mapsto> Text ''x'', ''/d/A a.pdf'' \<mapsto> Text ''y''],
                dirs = [], denied = [], fs_log = [], console = []\<rparr>,
        current_dir = ''/d'', bare_pdf_files = [1 \<mapsto> ''a.pdf''], file_paths = [0 \<mapsto> ''/d/a.pdf''],
        files_table = [0 \<mapsto> ''A a.pdf''], files_being_edited = [], messages = [], status_bar = []\<rparr>)) = [] \<and>
   messages (add_tok_prefix_to_file True (Some ''A'') 0
       \<lparr>disk = \<lparr>files = Map.empty, dirs = [], denied = [], fs_log = [], console = []\<rparr>,
        current_dir = ''/d'', bare_pdf_files = [1 \<mapsto> ''a.pdf''], file_paths = [0 \<mapsto> ''/d/a.pdf''],
        files_table = [0 \<mapsto> ''A a.pdf''], files_being_edited = [], messages = [], status_bar = []\<rparr>) = [File_Not_Found_On_Disk ''a.pdf''] \<and>
   fs_log (disk (on_file_item_changed [] 0
       \<lparr>disk = \<lparr>files = Map.empty, dirs = [], denied = [], fs_log = [], console = []\<rparr>,
        current_dir = ''/d'', bare_pdf_files = [1 \<mapsto> ''a.pdf''], file_paths = [0 \<mapsto> ''/d/a.pdf''],
        files_table = [0 \<mapsto> ''A a.pdf''], files_being_edited = [], messages = [], status_bar = []\<rparr>)) = []"
  using safe_rename_preconditions [where selected = True and file_row = 0 and tok_text = "''A''"
      and shown = "''A a.pdf''" and old_filename = "''a.pdf''" and row = 0 and edited = "''A a.pdf''"
      and listing = "[]" and w = "\<lparr>disk = \<lparr>files = [''/d/a.pdf'' \<mapsto> Text ''x'', ''/d/A a.pdf'' \<mapsto> Text ''y''],
                dirs = [], denied = [], fs_log = [], console = []\<rparr>,
        current_dir = ''/d'', bare_pdf_files = [1 \<mapsto> ''a.pdf''], file_paths = [0 \<mapsto> ''/d/a.pdf''],
        files_table = [0 \<mapsto> ''A a.pdf''], files_being_edited = [], messages = [], status_bar = []\<rparr>"]
    safe_rename_preconditions [where selected = True and file_row = 0 and tok_text = "''A''"
      and shown = "''A a.pdf''" and old_filename = "''a.pdf''" and row = 0 and edited = "''A a.pdf''"
      and listing = "[]" and w = "\<lparr>disk = \<lparr>files = Map.empty, dirs = [], denied = [], fs_log = [], console = []\<rparr>,
        current_dir = ''/d'', bare_pdf_files = [1 \<mapsto> ''a.pdf''], file_paths = [0 \<mapsto> ''/d/a.pdf''],
        files_table = [0 \<mapsto> ''A a.pdf''], files_being_edited = [], messages = [], status_bar = []\<rparr>"]
  by (simp add: string_defs format_code_def show_message_def)

section \<open>Mutating the ToK entry list\<close>

text \<open>Adding an entry sorts the list; deleting one keeps a sorted list sorted.\<close>

lemma sorted_add_tok_entry: "sorted_by_prefix (add_tok_entry code label tok)"
  by (simp add: sorted_by_prefix_def add_tok_entry_def)

lemma sorted_remove1_key: "sorted (map f xs) \<Longrightarrow> sorted (map f (remove1 x xs))"
  by (induction xs) (auto)

lemma sorted_delete_tok_entry:
  "sorted_by_prefix tok \<Longrightarrow> sorted_by_prefix (snd (delete_tok_entry code tok))"
  by (auto simp: sorted_by_prefix_def delete_tok_entry_def sorted_remove1_key split: option.splits)

text \<open>
  C3. Each mutation of the ToK entry list should leave it sorted by prefix.
  \<open>update_tok_entry\<close> overwrites the prefix in place and does not sort: on the sorted list
  of the entries \<open>"0"\<close> and \<open>"1"\<close>, changing the code \<open>"0"\<close> to \<open>"2"\<close> leaves \<open>"2"\<close> before
  \<open>"1"\<close>.
\<close>

theorem update_tok_entry_breaks_order:
  "sorted_by_prefix [\<lparr>te_prefix = Some ''0'', te_string = Some ''a''\<rparr>,
                     \<lparr>te_prefix = Some ''1'', te_string = Some ''b''\<rparr>] \<and>
   update_tok_entry ''0'' ''2'' ''a''
     [\<lparr>te_prefix = Some ''0'', te_string = Some ''a''\<rparr>,
      \<lparr>te_prefix = Some ''1'', te_string = Some ''b''\<rparr>] =
     (True, [\<lparr>te_prefix = Some ''2'', te_string = Some ''a''\<rparr>,
             \<lparr>te_prefix = Some ''1'', te_string = Some ''b''\<rparr>]) \<and>
   \<not> sorted_by_prefix [\<lparr>te_prefix = Some ''2'', te_string = Some ''a''\<rparr>,
                       \<lparr>te_prefix = Some ''1'', te_string = Some ''b''\<rparr>]"
  by (simp add: sorted_by_prefix_def get_prefix_def)

section \<open>The prefix round trip\<close>

lemma alnum_not_space: "is_alnum c \<Longrightarrow> \<not> is_space c"
  by (auto simp: is_alnum_def is_space_def Let_def)

lemma alnum_not_blank: "is_alnum c \<Longrightarrow> c \<noteq> CHR '' ''"
  by (auto simp: is_alnum_def)

lemma is_space_blank: "is_space CHR '' ''"
  by (simp add: is_space_def)

lemma pair_run_pairs:
  "\<exists>cs. pair_run s = concat (map (\<lambda>c. [c, CHR '' '']) cs) \<and> (\<forall>c\<in>set cs. is_alnum c)"
proof (induction s rule: pair_run.induct)
  case (1 c d rest)
  show ?case
  proof (cases "is_alnum c \<and> d = CHR '' ''")
    case True
    with 1 obtain cs where "pair_run rest = concat (map (\<lambda>c. [c, CHR '' '']) cs)"
      and "\<forall>c\<in>set cs. is_alnum c" by auto
    with True have "pair_run (c # d # rest) = concat (map (\<lambda>c. [c, CHR '' '']) (c # cs)) \<and>
        (\<forall>c\<in>set (c # cs). is_alnum c)" by simp
    then show ?thesis by blast
  next
    case False
    then have "pair_run (c # d # rest) = concat (map (\<lambda>c. [c, CHR '' '']) []) \<and>
        (\<forall>c\<in>set ([]::string). is_alnum c)" by auto
    then show ?thesis by blast
  qed
qed (auto intro!: exI [of _ "[]"])

lemma pair_run_append_pairs:
  "\<forall>c\<in>set cs. is_alnum c \<Longrightarrow>
   pair_run (concat (map (\<lambda>c. [c, CHR '' '']) cs) @ s) = concat (map (\<lambda>c. [c, CHR '' '']) cs) @ pair_run s"
  by (induction cs) auto

lemma strip_pairs:
  assumes "cs \<noteq> []" and "\<forall>c\<in>set cs. is_alnum c"
  shows "strip (concat (map (\<lambda>c. [c, CHR '' '']) cs)) = butlast (concat (map (\<lambda>c. [c, CHR '' '']) cs))"
proof -
  from assms(1) obtain c0 cs0 where c0: "cs = c0 # cs0" by (cases cs) auto
  from assms(1) obtain cs1 c1 where c1: "cs = cs1 @ [c1]" by (cases cs rule: rev_cases) auto
  have front: "dropWhile is_space (concat (map (\<lambda>c. [c, CHR '' '']) cs)) = concat (map (\<lambda>c. [c, CHR '' '']) cs)"
    using assms(2) by (simp add: c0 alnum_not_space)
  have "rev (dropWhile is_space (rev (concat (map (\<lambda>c. [c, CHR '' '']) cs)))) =
        concat (map (\<lambda>c. [c, CHR '' '']) cs1) @ [c1]"
    using assms(2) by (simp add: c1 alnum_not_space is_space_blank)
  moreover have "butlast (concat (map (\<lambda>c. [c, CHR '' '']) cs)) = concat (map (\<lambda>c. [c, CHR '' '']) cs1) @ [c1]"
    by (simp add: c1 butlast_append)
  ultimately show ?thesis by (simp add: strip_def front)
qed

lemma filter_pairs:
  "\<forall>c\<in>set cs. is_alnum c \<Longrightarrow>
   filter (\<lambda>c. c \<noteq> CHR '' '') (concat (map (\<lambda>c. [c, CHR '' '']) cs)) = cs"
  by (induction cs) (auto simp: alnum_not_blank)

lemma filter_butlast_pairs:
  assumes "cs \<noteq> []" and "\<forall>c\<in>set cs. is_alnum c"
  shows "filter (\<lambda>c. c \<noteq> CHR '' '') (butlast (concat (map (\<lambda>c. [c, CHR '' '']) cs))) = cs"
proof -
  from assms(1) obtain cs1 c1 where c1: "cs = cs1 @ [c1]" by (cases cs rule: rev_cases) auto
  have "butlast (concat (map (\<lambda>c. [c, CHR '' '']) cs)) = concat (map (\<lambda>c. [c, CHR '' '']) cs1) @ [c1]"
    by (simp add: c1 butlast_append)
  then show ?thesis using assms(2) by (simp add: c1 filter_pairs alnum_not_blank)
qed

lemma format_code_pairs:
  "cs \<noteq> [] \<Longrightarrow> format_code cs = concat (map (\<lambda>c. [c, CHR '' '']) cs)"
proof (induction cs rule: list_nonempty_induct)
  case (single x)
  then show ?case by (simp add: format_code_def)
next
  case (cons x xs)
  then obtain y ys where "xs = y # ys" by (cases xs) auto
  with cons show ?case by (simp add: format_code_def)
qed

text \<open>
  C7 (as amended). Let a filename match the prefix grammar, let \<open>code\<close> be the prefix that
  \<open>matches_pattern\<close> returns and let the base filename, the rest of the name stripped, not
  begin with a pair of an alphanumeric character and a space. Removing the spaces from
  \<open>code\<close>, formatting the result with \<open>format_code\<close> (a space after every character) and
  putting it directly before the base filename gives a filename whose prefix is \<open>code\<close>
  again.
\<close>

theorem prefix_round_trip:
  assumes "matches_pattern filename = Some code"
    and "pair_run (snd (split_filename filename)) = []"
  shows "matches_pattern (format_code (filter (\<lambda>c. c \<noteq> CHR '' '') code) @ snd (split_filename filename))
         = Some code"
proof -
  obtain cs where run: "pair_run filename = concat (map (\<lambda>c. [c, CHR '' '']) cs)"
    and alnum: "\<forall>c\<in>set cs. is_alnum c"
    using pair_run_pairs by blast
  from assms(1) have long: "4 \<le> length (pair_run filename)" and code: "code = strip (pair_run filename)"
    by (auto simp: matches_pattern_def Let_def split: if_splits)
  from long run have ne: "cs \<noteq> []" by auto
  have code': "code = butlast (concat (map (\<lambda>c. [c, CHR '' '']) cs))"
    by (simp add: code run strip_pairs [OF ne alnum])
  have "format_code (filter (\<lambda>c. c \<noteq> CHR '' '') code) = pair_run filename"
    by (simp add: code' filter_butlast_pairs [OF ne alnum] format_code_pairs [OF ne] run)
  moreover have "pair_run (pair_run filename @ snd (split_filename filename)) = pair_run filename"
    by (simp add: run pair_run_append_pairs [OF alnum] assms(2))
  ultimately show ?thesis
    using long by (simp add: matches_pattern_def code)
qed

theorem prefix_round_trip_witness:
  "matches_pattern (format_code (filter (\<lambda>c. c \<noteq> CHR '' '') ''A B'') @ ''report.pdf'') = Some ''A B''"
  using prefix_round_trip [of "''A B report.pdf''" "''A B''"]
  by (simp add: split_filename_prefixed) (simp add: matches_pattern_def string_defs)

text \<open>
  C7 as stated formats the returned code itself. The code of \<open>"A B report.pdf"\<close> is
  \<open>"A B"\<close>, which \<open>format_code\<close> turns into \<open>"A   B "\<close>, and the new filename has no prefix.
  For \<open>"A B  C D.pdf"\<close> the base filename is \<open>"C D.pdf"\<close>, and the new filename built from
  the code without its spaces has the prefix \<open>"A B C"\<close>.
\<close>

theorem prefix_round_trip_counterexample:
  "matches_pattern ''A B report.pdf'' = Some ''A B'' \<and>
   split_filename ''A B report.pdf'' = (''A B'', ''report.pdf'') \<and>
   matches_pattern (format_code ''A B'' @ ''report.pdf'') \<noteq> Some ''A B'' \<and>
   matches_pattern ''A B  C D.pdf'' = Some ''A B'' \<and>
   split_filename ''A B  C D.pdf'' = (''A B'', ''C D.pdf'') \<and>
   matches_pattern (format_code ''AB'' @ ''C D.pdf'') \<noteq> Some ''A B''"
  by (simp add: split_filename_def matches_pattern_def format_code_def string_defs)

section \<open>The folder of a scanned file\<close>

lemma all_records_append: "all_records (d @ [(k, [i])]) = insert i (all_records d)"
  by (simp add: all_records_def)

lemma all_records_update:
  "map_of d k = Some infos \<Longrightarrow>
   all_records (AList.update k (infos @ [i]) d) = insert i (all_records d)"
  by (induction d) (auto simp: all_records_def split: if_splits)

lemma records_scan_file:
  "all_records (scan_file getstat dirpath filename d) =
   all_records d \<union> new_records getstat dirpath filename"
proof (cases "endswith (lower filename) ''.pdf''")
  case False
  then show ?thesis by (simp add: scan_file_def new_records_def)
next
  case pdf: True
  obtain tok_prefix base_filename where sp: "split_filename filename = (tok_prefix, base_filename)"
    by (cases "split_filename filename") auto
  show ?thesis
  proof (cases "getstat (path_join dirpath filename)")
    case None
    with pdf show ?thesis by (simp add: scan_file_def new_records_def Let_def sp)
  next
    case (Some st)
    obtain file_size date_created date_modified where st: "st = (file_size, date_created, date_modified)"
      by (cases st) auto
    have new: "new_records getstat dirpath filename =
        {(base_filename, tok_prefix, dirpath, date_created, date_modified)}"
      using pdf Some by (auto simp: new_records_def st sp)
    show ?thesis
    proof (cases "map_of d file_size")
      case None
      with pdf Some show ?thesis
        by (simp add: scan_file_def Let_def sp st new all_records_append)
    next
      case (Some infos)
      with pdf \<open>getstat (path_join dirpath filename) = Some st\<close> show ?thesis
        by (simp add: scan_file_def Let_def sp st new all_records_update)
    qed
  qed
qed

lemma records_scan_dir:
  "all_records (fold (scan_file getstat dirpath) filenames d) =
   all_records d \<union> (\<Union>filename \<in> set filenames. new_records getstat dirpath filename)"
  by (induction filenames arbitrary: d) (auto simp: records_scan_file)

lemma records_scan_entries:
  "all_records (fold (scan_dir getstat) entries d) =
   all_records d \<union>
   (\<Union>(dirpath, dirnames, filenames) \<in> set entries.
      \<Union>filename \<in> set filenames. new_records getstat dirpath filename)"
  by (induction entries arbitrary: d) (auto simp: scan_dir_def records_scan_dir)

lemma walk_root: "walk dirpath tree ! 0 = (dirpath, map dir_name (dir_subdirs tree), dir_files tree)"
  by (cases tree) simp

lemma walk_dirpaths:
  "(p, dirnames, filenames) \<in> set (walk dirpath tree) \<Longrightarrow>
   p = dirpath \<or>
   (\<exists>parent names fs name. (parent, names, fs) \<in> set (walk dirpath tree) \<and> name \<in> set names \<and>
      p = path_join parent name)"
proof (induction dirpath tree arbitrary: p dirnames filenames rule: walk.induct)
  case (1 dirpath name files subdirs)
  show ?case
  proof (cases "p = dirpath")
    case True
    then show ?thesis by simp
  next
    case False
    with 1(2) obtain d where d: "d \<in> set subdirs"
      and mem: "(p, dirnames, filenames) \<in> set (walk (path_join dirpath (dir_name d)) d)"
      by auto
    from 1(1) [OF d mem] show ?thesis
    proof
      assume "p = path_join dirpath (dir_name d)"
      with d have "(dirpath, map dir_name subdirs, files) \<in> set (walk dirpath (Dir name files subdirs)) \<and>
          dir_name d \<in> set (map dir_name subdirs) \<and> p = path_join dirpath (dir_name d)"
        by simp
      then show ?thesis by blast
    next
      assume "\<exists>parent names fs name.
        (parent, names, fs) \<in> set (walk (path_join dirpath (dir_name d)) d) \<and> name \<in> set names \<and>
        p = path_join parent name"
      then obtain parent names fs nm where
        "(parent, names, fs) \<in> set (walk (path_join dirpath (dir_name d)) d)" "nm \<in> set names"
        "p = path_join parent nm" by blast
      with d have "(parent, names, fs) \<in> set (walk dirpath (Dir name files subdirs)) \<and> nm \<in> set names \<and>
        p = path_join parent nm" by auto
      then show ?thesis by blast
    qed
  qed
qed

text \<open>
  C6 (as amended). The records of \<open>scan_all_pdfs\<close> are exactly those of the PDF files whose
  size and dates can be read, and the folder of each is the \<open>dirpath\<close> under which
  \<open>os.walk\<close> yields the file's directory: the scan root's own path for the root, and for
  every other directory the path of its parent joined with its name. The folder is not
  made relative to the root and no root token replaces it.
\<close>

theorem scan_all_pdfs_folder:
  "set (concat (map snd (scan_all_pdfs getstat dropbox_path tree))) =
     {(base_filename, tok_prefix, dirpath, date_created, date_modified)
        | base_filename tok_prefix dirpath date_created date_modified dirnames filenames file_size filename.
        (dirpath, dirnames, filenames) \<in> set (walk dropbox_path tree) \<and>
        filename \<in> set filenames \<and> endswith (lower filename) ''.pdf'' \<and>
        getstat (path_join dirpath filename) = Some (file_size, date_created, date_modified) \<and>
        split_filename filename = (tok_prefix, base_filename)} \<and>
   walk dropbox_path tree ! 0 = (dropbox_path, map dir_name (dir_subdirs tree), dir_files tree) \<and>
   (\<forall>(dirpath, dirnames, filenames) \<in> set (walk dropbox_path tree).
      dirpath = dropbox_path \<or>
      (\<exists>parent names fs name. (parent, names, fs) \<in> set (walk dropbox_path tree) \<and> name \<in> set names \<and>
         dirpath = path_join parent name))"
proof (intro conjI)
  show "set (concat (map snd (scan_all_pdfs getstat dropbox_path tree))) =
     {(base_filename, tok_prefix, dirpath, date_created, date_modified)
        | base_filename tok_prefix dirpath date_created date_modified dirnames filenames file_size filename.
        (dirpath, dirnames, filenames) \<in> set (walk dropbox_path tree) \<and>
        filename \<in> set filenames \<and> endswith (lower filename) ''.pdf'' \<and>
        getstat (path_join dirpath filename) = Some (file_size, date_created, date_modified) \<and>
        split_filename filename = (tok_prefix, base_filename)}"
  proof -
    have "(\<Union>(dirpath, dirnames, filenames) \<in> set (walk dropbox_path tree).
             \<Union>filename \<in> set filenames. new_records getstat dirpath filename) =
      {(base_filename, tok_prefix, dirpath, date_created, date_modified)
        | base_filename tok_prefix dirpath date_created date_modified dirnames filenames file_size filename.
        (dirpath, dirnames, filenames) \<in> set (walk dropbox_path tree) \<and>
        filename \<in> set filenames \<and> endswith (lower filename) ''.pdf'' \<and>
        getstat (path_join dirpath filename) = Some (file_size, date_created, date_modified) \<and>
        split_filename filename = (tok_prefix, base_filename)}"
      unfolding new_records_def by (rule set_eqI) (simp, blast)
    moreover have "all_records [] = {}"
      by (simp add: all_records_def)
    ultimately show ?thesis
      using records_scan_entries [of getstat "walk dropbox_path tree" "[]"]
      by (simp add: scan_all_pdfs_def all_records_def)
  qed
  show "walk dropbox_path tree ! 0 = (dropbox_path, map dir_name (dir_subdirs tree), dir_files tree)"
    by (rule walk_root)
  show "\<forall>(dirpath, dirnames, filenames) \<in> set (walk dropbox_path tree).
      dirpath = dropbox_path \<or>
      (\<exists>parent names fs name. (parent, names, fs) \<in> set (walk dropbox_path tree) \<and> name \<in> set names \<and>
         dirpath = path_join parent name)"
    using walk_dirpaths by fast
qed

text \<open>
  C6 as stated asks for \<open>"[root]"\<close> and \<open>"sub"\<close> as the folders of a file in the root and of
  a file in its subdirectory \<open>sub\<close>. The folders recorded are the paths of the two
  directories.
\<close>

theorem scan_all_pdfs_folder_counterexample:
  "map (fst \<circ> snd \<circ> snd)
     (concat (map snd
        (scan_all_pdfs
           (map_of [(''/home/u/Dropbox/x.pdf'', (7, ''2024-01-01 10:00:00'', ''2024-01-02 10:00:00'')),
                    (''/home/u/Dropbox/sub/y.pdf'', (8, ''2024-02-01 10:00:00'', ''2024-02-02 10:00:00''))])
           ''/home/u/Dropbox''
           (Dir ''Dropbox'' [''x.pdf''] [Dir ''sub'' [''y.pdf''] []]))))
   = [''/home/u/Dropbox'', ''/home/u/Dropbox/sub'']"
  by (simp add: scan_defs split_filename_def matches_pattern_def string_defs)

theorem scan_all_pdfs_folder_witness:
  "set (concat (map snd
        (scan_all_pdfs
           (map_of [(''/home/u/Dropbox/x.pdf'', (7, ''2024-01-01 10:00:00'', ''2024-01-02 10:00:00'')),
                    (''/home/u/Dropbox/sub/y.pdf'', (8, ''2024-02-01 10:00:00'', ''2024-02-02 10:00:00''))])
           ''/home/u/Dropbox''
           (Dir ''Dropbox'' [''x.pdf''] [Dir ''sub'' [''y.pdf''] []])))) =
     {(''x.pdf'', [], ''/home/u/Dropbox'', ''2024-01-01 10:00:00'', ''2024-01-02 10:00:00''),
      (''y.pdf'', [], ''/home/u/Dropbox/sub'', ''2024-02-01 10:00:00'', ''2024-02-02 10:00:00'')} \<and>
   walk ''/home/u/Dropbox'' (Dir ''Dropbox'' [''x.pdf''] [Dir ''sub'' [''y.pdf''] []]) =
     [(''/home/u/Dropbox'', [''sub''], [''x.pdf'']), (''/home/u/Dropbox/sub'', [], [''y.pdf''])]"
proof -
  have "set (concat (map snd
        (scan_all_pdfs
           (map_of [(''/home/u/Dropbox/x.pdf'', (7, ''2024-01-01 10:00:00'', ''2024-01-02 10:00:00'')),
                    (''/home/u/Dropbox/sub/y.pdf'', (8, ''2024-02-01 10:00:00'', ''2024-02-02 10:00:00''))])
           ''/home/u/Dropbox''
           (Dir ''Dropbox'' [''x.pdf''] [Dir ''sub'' [''y.pdf''] []])))) =
     {(''x.pdf'', [], ''/home/u/Dropbox'', ''2024-01-01 10:00:00'', ''2024-01-02 10:00:00''),
      (''y.pdf'', [], ''/home/u/Dropbox/sub'', ''2024-02-01 10:00:00'', ''2024-02-02 10:00:00'')}"
    by (simp add: scan_defs split_filename_def matches_pattern_def string_defs)
  moreover have "walk ''/home/u/Dropbox'' (Dir ''Dropbox'' [''x.pdf''] [Dir ''sub'' [''y.pdf''] []]) =
     [(''/home/u/Dropbox'', [''sub''], [''x.pdf'']), (''/home/u/Dropbox/sub'', [], [''y.pdf''])]"
    by (simp add: path_join_def)
  ultimately show ?thesis
    using scan_all_pdfs_folder [of
        "map_of [(''/home/u/Dropbox/x.pdf'', (7, ''2024-01-01 10:00:00'', ''2024-01-02 10:00:00'')),
                 (''/home/u/Dropbox/sub/y.pdf'', (8, ''2024-02-01 10:00:00'', ''2024-02-02 10:00:00''))]"
        "''/home/u/Dropbox''" "Dir ''Dropbox'' [''x.pdf''] [Dir ''sub'' [''y.pdf''] []]"]
    by blast
qed

text \<open>
  The patterned scan \<open>scan_pdfs\<close> is the one that records the folder relative to the root,
  with \<open>"[root]"\<close> for the root itself.
\<close>

lemma scan_pdfs_relative_folder:
  "map (fst \<circ> snd \<circ> snd)
     (scan_pdfs get_pdf_title ''/home/u/Dropbox''
        (Dir ''Dropbox'' [''A B x.pdf''] [Dir ''sub'' [''C D y.pdf''] []]))
   = [''[root]'', ''sub'']"
  by (simp add: scan_pdfs_def scan_pdfs_file_def relpath_def matches_pattern_def string_defs)

section \<open>The ToK tree\<close>

lemma fold_place_item_snoc:
  "fold place_item (xs @ [x]) s = place_item x (fold place_item xs s)"
  by simp

lemma fold_place_item_inv:
  "fold place_item xs ([], Map.empty) = (tree, m) \<Longrightarrow>
   length tree = length xs \<and>
   (\<forall>c. m c = None \<longleftrightarrow> c \<notin> set (map get_prefix xs)) \<and>
   (\<forall>c j. m c = Some j \<longleftrightarrow>
      j < length xs \<and> get_prefix (xs ! j) = c \<and>
      (\<forall>k. j < k \<and> k < length xs \<longrightarrow> get_prefix (xs ! k) \<noteq> c)) \<and>
   (\<forall>i < length xs.
      fst (tree ! i) = get_prefix (xs ! i) \<and>
      fst (snd (tree ! i)) = get_string (xs ! i) \<and>
      (snd (snd (tree ! i)) = None \<longleftrightarrow>
         \<not> (1 < length (get_prefix (xs ! i)) \<and>
            butlast (get_prefix (xs ! i)) \<in> set (map get_prefix (take i xs)))) \<and>
      (\<forall>j. snd (snd (tree ! i)) = Some j \<longleftrightarrow>
         1 < length (get_prefix (xs ! i)) \<and> j < i \<and>
         get_prefix (xs ! j) = butlast (get_prefix (xs ! i)) \<and>
         (\<forall>k. j < k \<and> k < i \<longrightarrow> get_prefix (xs ! k) \<noteq> butlast (get_prefix (xs ! i)))))"
proof (induction xs arbitrary: tree m rule: rev_induct)
  case Nil
  then show ?case by auto
next
  case (snoc x xs)
  obtain tree0 m0 where f0: "fold place_item xs ([], Map.empty) = (tree0, m0)"
    by (cases "fold place_item xs ([], Map.empty)") auto
  note ih = snoc.IH [OF f0]
  let ?code = "get_prefix x"
  let ?parent = "if 1 < length ?code then m0 (butlast ?code) else None"
  from snoc.prems f0 have step: "place_item x (tree0, m0) = (tree, m)"
    by simp
  from step have tree: "tree = tree0 @ [(?code, get_string x, ?parent)]"
    and m: "m = m0(?code \<mapsto> length tree0)"
    by (auto simp: place_item_def Let_def)
  from ih have len0: "length tree0 = length xs" by blast
  from ih have none0: "\<And>c. m0 c = None \<longleftrightarrow> c \<notin> set (map get_prefix xs)" by blast
  from ih have some0: "\<And>c j. m0 c = Some j \<longleftrightarrow>
      j < length xs \<and> get_prefix (xs ! j) = c \<and>
      (\<forall>k. j < k \<and> k < length xs \<longrightarrow> get_prefix (xs ! k) \<noteq> c)" by blast
  from ih have item0: "\<And>i. i < length xs \<Longrightarrow>
      fst (tree0 ! i) = get_prefix (xs ! i) \<and>
      fst (snd (tree0 ! i)) = get_string (xs ! i) \<and>
      (snd (snd (tree0 ! i)) = None \<longleftrightarrow>
         \<not> (1 < length (get_prefix (xs ! i)) \<and>
            butlast (get_prefix (xs ! i)) \<in> set (map get_prefix (take i xs)))) \<and>
      (\<forall>j. snd (snd (tree0 ! i)) = Some j \<longleftrightarrow>
         1 < length (get_prefix (xs ! i)) \<and> j < i \<and>
         get_prefix (xs ! j) = butlast (get_prefix (xs ! i)) \<and>
         (\<forall>k. j < k \<and> k < i \<longrightarrow> get_prefix (xs ! k) \<noteq> butlast (get_prefix (xs ! i))))" by blast
  have len: "length tree = length (xs @ [x])"
    by (simp add: tree len0)
  have none: "\<forall>c. m c = None \<longleftrightarrow> c \<notin> set (map get_prefix (xs @ [x]))"
    using none0 by (auto simp: m)
  have some: "\<forall>c j. m c = Some j \<longleftrightarrow>
      j < length (xs @ [x]) \<and> get_prefix ((xs @ [x]) ! j) = c \<and>
      (\<forall>k. j < k \<and> k < length (xs @ [x]) \<longrightarrow> get_prefix ((xs @ [x]) ! k) \<noteq> c)"
  proof (intro allI)
    fix c j
    show "m c = Some j \<longleftrightarrow>
      j < length (xs @ [x]) \<and> get_prefix ((xs @ [x]) ! j) = c \<and>
      (\<forall>k. j < k \<and> k < length (xs @ [x]) \<longrightarrow> get_prefix ((xs @ [x]) ! k) \<noteq> c)"
    proof (cases "c = ?code")
      case True
      have "(j < length (xs @ [x]) \<and> get_prefix ((xs @ [x]) ! j) = c \<and>
        (\<forall>k. j < k \<and> k < length (xs @ [x]) \<longrightarrow> get_prefix ((xs @ [x]) ! k) \<noteq> c)) \<longleftrightarrow> j = length xs"
      proof
        assume a: "j < length (xs @ [x]) \<and> get_prefix ((xs @ [x]) ! j) = c \<and>
          (\<forall>k. j < k \<and> k < length (xs @ [x]) \<longrightarrow> get_prefix ((xs @ [x]) ! k) \<noteq> c)"
        show "j = length xs"
        proof (rule ccontr)
          assume "j \<noteq> length xs"
          with a have "j < length xs" by simp
          with a have "get_prefix ((xs @ [x]) ! length xs) \<noteq> c" by auto
          with True show False by simp
        qed
      next
        assume "j = length xs"
        with True show "j < length (xs @ [x]) \<and> get_prefix ((xs @ [x]) ! j) = c \<and>
          (\<forall>k. j < k \<and> k < length (xs @ [x]) \<longrightarrow> get_prefix ((xs @ [x]) ! k) \<noteq> c)"
          by auto
      qed
      with True show ?thesis by (auto simp: m len0)
    next
      case False
      have "(j < length (xs @ [x]) \<and> get_prefix ((xs @ [x]) ! j) = c \<and>
        (\<forall>k. j < k \<and> k < length (xs @ [x]) \<longrightarrow> get_prefix ((xs @ [x]) ! k) \<noteq> c)) \<longleftrightarrow>
        (j < length xs \<and> get_prefix (xs ! j) = c \<and>
        (\<forall>k. j < k \<and> k < length xs \<longrightarrow> get_prefix (xs ! k) \<noteq> c))"
        using False by (auto simp: nth_append less_Suc_eq)
      with False show ?thesis by (simp add: m some0)
    qed
  qed
  have item: "\<forall>i < length (xs @ [x]).
      fst (tree ! i) = get_prefix ((xs @ [x]) ! i) \<and>
      fst (snd (tree ! i)) = get_string ((xs @ [x]) ! i) \<and>
      (snd (snd (tree ! i)) = None \<longleftrightarrow>
         \<not> (1 < length (get_prefix ((xs @ [x]) ! i)) \<and>
            butlast (get_prefix ((xs @ [x]) ! i)) \<in> set (map get_prefix (take i (xs @ [x]))))) \<and>
      (\<forall>j. snd (snd (tree ! i)) = Some j \<longleftrightarrow>
         1 < length (get_prefix ((xs @ [x]) ! i)) \<and> j < i \<and>
         get_prefix ((xs @ [x]) ! j) = butlast (get_prefix ((xs @ [x]) ! i)) \<and>
         (\<forall>k. j < k \<and> k < i \<longrightarrow> get_prefix ((xs @ [x]) ! k) \<noteq> butlast (get_prefix ((xs @ [x]) ! i))))"
  proof (intro allI impI)
    fix i assume "i < length (xs @ [x])"
    then consider "i < length xs" | "i = length xs" by fastforce
    then show "fst (tree ! i) = get_prefix ((xs @ [x]) ! i) \<and>
      fst (snd (tree ! i)) = get_string ((xs @ [x]) ! i) \<and>
      (snd (snd (tree ! i)) = None \<longleftrightarrow>
         \<not> (1 < length (get_prefix ((xs @ [x]) ! i)) \<and>
            butlast (get_prefix ((xs @ [x]) ! i)) \<in> set (map get_prefix (take i (xs @ [x]))))) \<and>
      (\<forall>j. snd (snd (tree ! i)) = Some j \<longleftrightarrow>
         1 < length (get_prefix ((xs @ [x]) ! i)) \<and> j < i \<and>
         get_prefix ((xs @ [x]) ! j) = butlast (get_prefix ((xs @ [x]) ! i)) \<and>
         (\<forall>k. j < k \<and> k < i \<longrightarrow> get_prefix ((xs @ [x]) ! k) \<noteq> butlast (get_prefix ((xs @ [x]) ! i))))"
    proof cases
      case 1
      then have "tree ! i = tree0 ! i" "(xs @ [x]) ! i = xs ! i" "take i (xs @ [x]) = take i xs"
        "\<And>j. j < i \<Longrightarrow> (xs @ [x]) ! j = xs ! j"
        by (simp_all add: tree nth_append len0)
      with item0 [OF 1] show ?thesis by auto
    next
      case 2
      have f: "fst (tree ! i) = ?code" and l: "fst (snd (tree ! i)) = get_string x"
        and p: "snd (snd (tree ! i)) = ?parent" and x: "(xs @ [x]) ! i = x"
        and tk: "take i (xs @ [x]) = xs"
        by (simp_all add: 2 tree nth_append len0)
      have range: "\<And>j c. (j < i \<and> get_prefix ((xs @ [x]) ! j) = c \<and>
            (\<forall>k. j < k \<and> k < i \<longrightarrow> get_prefix ((xs @ [x]) ! k) \<noteq> c)) \<longleftrightarrow>
          (j < length xs \<and> get_prefix (xs ! j) = c \<and>
            (\<forall>k. j < k \<and> k < length xs \<longrightarrow> get_prefix (xs ! k) \<noteq> c))"
        by (auto simp: 2 nth_append)
      have a: "snd (snd (tree ! i)) = None \<longleftrightarrow>
         \<not> (1 < length (get_prefix ((xs @ [x]) ! i)) \<and>
            butlast (get_prefix ((xs @ [x]) ! i)) \<in> set (map get_prefix (take i (xs @ [x]))))"
        unfolding p x tk using none0 [of "butlast ?code"] by simp
      have b: "\<forall>j. snd (snd (tree ! i)) = Some j \<longleftrightarrow>
         1 < length (get_prefix ((xs @ [x]) ! i)) \<and> j < i \<and>
         get_prefix ((xs @ [x]) ! j) = butlast (get_prefix ((xs @ [x]) ! i)) \<and>
         (\<forall>k. j < k \<and> k < i \<longrightarrow> get_prefix ((xs @ [x]) ! k) \<noteq> butlast (get_prefix ((xs @ [x]) ! i)))"
      proof
        fix j
        show "snd (snd (tree ! i)) = Some j \<longleftrightarrow>
         1 < length (get_prefix ((xs @ [x]) ! i)) \<and> j < i \<and>
         get_prefix ((xs @ [x]) ! j) = butlast (get_prefix ((xs @ [x]) ! i)) \<and>
         (\<forall>k. j < k \<and> k < i \<longrightarrow> get_prefix ((xs @ [x]) ! k) \<noteq> butlast (get_prefix ((xs @ [x]) ! i)))"
          unfolding p x using range [of j "butlast ?code"] some0 [of "butlast ?code" j]
          by (cases "1 < length ?code") simp_all
      qed
      from f l a b show ?thesis by (simp add: x)
    qed
  qed
  from len none some item show ?case by blast
qed

lemmas tree_defs =
  load_tok_codes_def place_items_def place_item_def get_prefix_def get_string_def Let_def

text \<open>
  C8. \<open>load_tok_codes\<close> places the entries in ascending order of their codes. The item at
  position \<open>i\<close> has the code and the label of the \<open>i\<close>-th entry in that order. It is a
  top-level item exactly when its code has at most one character or no earlier item has
  the code with the last character removed; otherwise its parent is the item with that
  code, the last one placed before it. The entries \<open>"0"\<close>, \<open>"01"\<close>, \<open>"012"\<close> give the chain
  of \<open>"0"\<close>, its child \<open>"01"\<close> and the child \<open>"012"\<close> of that; the entry \<open>"01"\<close> alone gives
  one top-level item.
\<close>

theorem tok_tree_parents:
  "(tok_items \<noteq> [] \<longrightarrow>
      (\<exists>tree. load_tok_codes tok_items = Some tree \<and>
         length tree = length tok_items \<and>
         sorted (map get_prefix (sort_key get_prefix tok_items)) \<and>
         (\<forall>i < length tok_items.
            fst (tree ! i) = get_prefix (sort_key get_prefix tok_items ! i) \<and>
            fst (snd (tree ! i)) = get_string (sort_key get_prefix tok_items ! i) \<and>
            (snd (snd (tree ! i)) = None \<longleftrightarrow>
               \<not> (1 < length (get_prefix (sort_key get_prefix tok_items ! i)) \<and>
                  butlast (get_prefix (sort_key get_prefix tok_items ! i))
                    \<in> set (map get_prefix (take i (sort_key get_prefix tok_items))))) \<and>
            (\<forall>j. snd (snd (tree ! i)) = Some j \<longleftrightarrow>
               1 < length (get_prefix (sort_key get_prefix tok_items ! i)) \<and> j < i \<and>
               get_prefix (sort_key get_prefix tok_items ! j) =
                 butlast (get_prefix (sort_key get_prefix tok_items ! i)) \<and>
               (\<forall>k. j < k \<and> k < i \<longrightarrow>
                  get_prefix (sort_key get_prefix tok_items ! k) \<noteq>
                    butlast (get_prefix (sort_key get_prefix tok_items ! i))))))) \<and>
   load_tok_codes
       [\<lparr>te_prefix = Some ''0'', te_string = Some ''Root''\<rparr>,
        \<lparr>te_prefix = Some ''01'', te_string = Some ''Branch''\<rparr>,
        \<lparr>te_prefix = Some ''012'', te_string = Some ''Leaf''\<rparr>] =
     Some [(''0'', ''Root'', None), (''01'', ''Branch'', Some 0), (''012'', ''Leaf'', Some 1)] \<and>
   load_tok_codes [\<lparr>te_prefix = Some ''01'', te_string = Some ''Orphan''\<rparr>] =
     Some [(''01'', ''Orphan'', None)]"
proof (intro conjI impI)
  assume ne: "tok_items \<noteq> []"
  obtain tree m where f: "fold place_item (sort_key get_prefix tok_items) ([], Map.empty) = (tree, m)"
    by (cases "fold place_item (sort_key get_prefix tok_items) ([], Map.empty)") auto
  from ne f have "load_tok_codes tok_items = Some tree"
    by (simp add: load_tok_codes_def place_items_def)
  moreover have "sorted (map get_prefix (sort_key get_prefix tok_items))"
    by simp
  moreover note fold_place_item_inv [OF f]
  ultimately show "\<exists>tree. load_tok_codes tok_items = Some tree \<and>
         length tree = length tok_items \<and>
         sorted (map get_prefix (sort_key get_prefix tok_items)) \<and>
         (\<forall>i < length tok_items.
            fst (tree ! i) = get_prefix (sort_key get_prefix tok_items ! i) \<and>
            fst (snd (tree ! i)) = get_string (sort_key get_prefix tok_items ! i) \<and>
            (snd (snd (tree ! i)) = None \<longleftrightarrow>
               \<not> (1 < length (get_prefix (sort_key get_prefix tok_items ! i)) \<and>
                  butlast (get_prefix (sort_key get_prefix tok_items ! i))
                    \<in> set (map get_prefix (take i (sort_key get_prefix tok_items))))) \<and>
            (\<forall>j. snd (snd (tree ! i)) = Some j \<longleftrightarrow>
               1 < length (get_prefix (sort_key get_prefix tok_items ! i)) \<and> j < i \<and>
               get_prefix (sort_key get_prefix tok_items ! j) =
                 butlast (get_prefix (sort_key get_prefix tok_items ! i)) \<and>
               (\<forall>k. j < k \<and> k < i \<longrightarrow>
                  get_prefix (sort_key get_prefix tok_items ! k) \<noteq>
                    butlast (get_prefix (sort_key get_prefix tok_items ! i)))))"
    by (intro exI [of _ tree]) simp
next
  show "load_tok_codes
       [\<lparr>te_prefix = Some ''0'', te_string = Some ''Root''\<rparr>,
        \<lparr>te_prefix = Some ''01'', te_string = Some ''Branch''\<rparr>,
        \<lparr>te_prefix = Some ''012'', te_string = Some ''Leaf''\<rparr>] =
     Some [(''0'', ''Root'', None), (''01'', ''Branch'', Some 0), (''012'', ''Leaf'', Some 1)]"
    by (simp add: tree_defs)
next
  show "load_tok_codes [\<lparr>te_prefix = Some ''01'', te_string = Some ''Orphan''\<rparr>] =
     Some [(''01'', ''Orphan'', None)]"
    by (simp add: tree_defs)
qed

theorem tok_tree_parents_witness:
  "load_tok_codes
       [\<lparr>te_prefix = Some ''012'', te_string = Some ''Leaf''\<rparr>,
        \<lparr>te_prefix = Some ''0'', te_string = Some ''Root''\<rparr>,
        \<lparr>te_prefix = Some ''01'', te_string = Some ''Branch''\<rparr>] =
     Some [(''0'', ''Root'', None), (''01'', ''Branch'', Some 0), (''012'', ''Leaf'', Some 1)]"
  using tok_tree_parents [of
       "[\<lparr>te_prefix = Some ''012'', te_string = Some ''Leaf''\<rparr>,
        \<lparr>te_prefix = Some ''0'', te_string = Some ''Root''\<rparr>,
        \<lparr>te_prefix = Some ''01'', te_string = Some ''Branch''\<rparr>]"]
  by (simp add: tree_defs)

section \<open>Comparing a scan with a document\<close>

lemmas compare_defs =
  compare_data_def compare_size_def compare_file_def compare_dates_def
  report_new_def report_removed_def index_json_def index_files_def get_ToK_def

text \<open>
  A folder \<open>f\<close> holds \<open>"A B report.pdf"\<close> and \<open>"report.pdf"\<close>, both of size 100, with
  different dates. Both have the base filename \<open>"report.pdf"\<close>, so the catalog lists the
  folder twice under one entry.
\<close>

lemma same_folder_scan:
  "scan_all_pdfs
     (map_of [(''/Dropbox/f/A B report.pdf'', (100, ''2024-01-01 10:00:00'', ''2024-01-02 10:00:00'')),
              (''/Dropbox/f/report.pdf'', (100, ''2024-02-01 10:00:00'', ''2024-02-02 10:00:00''))])
     ''/Dropbox'' (Dir ''Dropbox'' [] [Dir ''f'' [''A B report.pdf'', ''report.pdf''] []]) =
   [(100, [(''report.pdf'', ''A B'', ''/Dropbox/f'', ''2024-01-01 10:00:00'', ''2024-01-02 10:00:00''),
           (''report.pdf'', [], ''/Dropbox/f'', ''2024-02-01 10:00:00'', ''2024-02-02 10:00:00'')])]"
  by (simp add: scan_defs example_files path_join_def)

lemma same_folder_catalog:
  "create_json_output
     [(100, [(''report.pdf'', ''A B'', ''/Dropbox/f'', ''2024-01-01 10:00:00'', ''2024-01-02 10:00:00''),
             (''report.pdf'', [], ''/Dropbox/f'', ''2024-02-01 10:00:00'', ''2024-02-02 10:00:00'')])]
     True =
   [\<lparr>sg_size = 100,
     sg_files =
       [\<lparr>fe_filename = ''report.pdf'', fe_ToK = Some ''A B'',
         fe_locations =
           [\<lparr>loc_folder = ''/Dropbox/f'', loc_created = ''2024-01-01 10:00:00'',
             loc_modified = ''2024-01-02 10:00:00''\<rparr>,
            \<lparr>loc_folder = ''/Dropbox/f'', loc_created = ''2024-02-01 10:00:00'',
             loc_modified = ''2024-02-02 10:00:00''\<rparr>]\<rparr>]\<rparr>]"
  by (simp add: json_defs)

lemma same_folder_index: "index_json [\<lparr>sg_size = 100,
     sg_files =
       [\<lparr>fe_filename = ''report.pdf'', fe_ToK = Some ''A B'',
         fe_locations =
           [\<lparr>loc_folder = ''/Dropbox/f'', loc_created = ''2024-01-01 10:00:00'',
             loc_modified = ''2024-01-02 10:00:00''\<rparr>,
            \<lparr>loc_folder = ''/Dropbox/f'', loc_created = ''2024-02-01 10:00:00'',
             loc_modified = ''2024-02-02 10:00:00''\<rparr>]\<rparr>]\<rparr>] = [(100,
      [(''report.pdf'', ''A B'',
        [\<lparr>loc_folder = ''/Dropbox/f'', loc_created = ''2024-01-01 10:00:00'',
            loc_modified = ''2024-01-02 10:00:00''\<rparr>,
         \<lparr>loc_folder = ''/Dropbox/f'', loc_created = ''2024-02-01 10:00:00'',
            loc_modified = ''2024-02-02 10:00:00''\<rparr>])])]"
  by (simp add: index_json_def index_files_def get_ToK_def)

lemma same_folder_compare: "compare_data [(100,
      [(''report.pdf'', ''A B'',
        [\<lparr>loc_folder = ''/Dropbox/f'', loc_created = ''2024-01-01 10:00:00'',
            loc_modified = ''2024-01-02 10:00:00''\<rparr>,
         \<lparr>loc_folder = ''/Dropbox/f'', loc_created = ''2024-02-01 10:00:00'',
            loc_modified = ''2024-02-02 10:00:00''\<rparr>])])] [(100,
      [(''report.pdf'', ''A B'',
        [\<lparr>loc_folder = ''/Dropbox/f'', loc_created = ''2024-01-01 10:00:00'',
            loc_modified = ''2024-01-02 10:00:00''\<rparr>,
         \<lparr>loc_folder = ''/Dropbox/f'', loc_created = ''2024-02-01 10:00:00'',
            loc_modified = ''2024-02-02 10:00:00''\<rparr>])])] = [MODIFIED ''report.pdf'' ''/Dropbox/f'']"
  by (simp add: compare_data_def compare_size_def compare_file_def compare_dates_def
  report_new_def report_removed_def)

text \<open>
  C5. Comparing the catalog of a scan with the same scan should report no difference. For
  the scan above, \<open>compare_pdf_scans\<close> looks up the old location of the second location by
  its folder, finds the first location, whose dates differ, and reports a modification:
  \<open>has_changes\<close> is true.
\<close>

theorem compare_same_scan_reports_change:
  "compare_pdf_scans
     (Some (create_json_output
        (scan_all_pdfs
           (map_of [(''/Dropbox/f/A B report.pdf'', (100, ''2024-01-01 10:00:00'', ''2024-01-02 10:00:00'')),
                    (''/Dropbox/f/report.pdf'', (100, ''2024-02-01 10:00:00'', ''2024-02-02 10:00:00''))])
           ''/Dropbox'' (Dir ''Dropbox'' [] [Dir ''f'' [''A B report.pdf'', ''report.pdf''] []]))
        True))
     (scan_all_pdfs
        (map_of [(''/Dropbox/f/A B report.pdf'', (100, ''2024-01-01 10:00:00'', ''2024-01-02 10:00:00'')),
                 (''/Dropbox/f/report.pdf'', (100, ''2024-02-01 10:00:00'', ''2024-02-02 10:00:00''))])
        ''/Dropbox'' (Dir ''Dropbox'' [] [Dir ''f'' [''A B report.pdf'', ''report.pdf''] []]))
     True
   = (True, [MODIFIED ''report.pdf'' ''/Dropbox/f''])"
  by (simp only: same_folder_scan same_folder_catalog same_folder_index same_folder_compare
        compare_pdf_scans_def Let_def option.case) simp














section \<open>Comparing a scan with its own catalog\<close>

text \<open>
  The report of a modification for an unchanged scan needs two locations of one entry in
  the same folder. When, within every size, no two records share base filename and folder,
  comparing a scan with its own catalog reports nothing and \<open>has_changes\<close> is false.
\<close>

lemma find_same_key:
  "distinct (map f xs) \<Longrightarrow> x \<in> set xs \<Longrightarrow> find (\<lambda>y. f y = f x) xs = Some x"
  by (induction xs) (auto simp: image_iff)

lemma compare_dates_same:
  assumes "distinct (map loc_folder locs)" and "loc \<in> set locs"
  shows "compare_dates filename locs loc = []"
proof -
  have f: "find (\<lambda>l. loc_folder l = loc_folder loc) locs = Some loc"
    by (rule find_same_key [OF assms])
  have m: "loc_folder loc \<in> set (map loc_folder locs)"
    using assms(2) by (simp only: set_map) (rule imageI)
  show ?thesis
    by (simp only: compare_dates_def Let_def m if_True f option.case simp_thms if_False)
qed

lemma compare_file_same:
  "distinct (map loc_folder locs) \<Longrightarrow> compare_file filename (tok, locs) (tok, locs) = []"
  by (simp add: compare_file_def Let_def compare_dates_same)

lemma compare_size_same:
  assumes "distinct (map fst by_name)"
    and "\<forall>(filename, tok, locs) \<in> set by_name. distinct (map loc_folder locs)"
  shows "compare_size sz by_name by_name = []"
proof -
  have present: "\<And>p. p \<in> set by_name \<Longrightarrow> map_of by_name (fst p) = Some (snd p)"
    using assms(1) by (simp add: map_of_is_SomeI)
  have new: "filter (\<lambda>(filename, d). map_of by_name filename = None) by_name = []"
    using present by (auto simp: filter_empty_conv)
  have same: "\<And>p. p \<in> set by_name \<Longrightarrow>
      (case map_of by_name (fst p) of None \<Rightarrow> []
       | Some new_file_data \<Rightarrow> compare_file (fst p) (snd p) new_file_data) = []"
  proof -
    fix p assume p: "p \<in> set by_name"
    obtain filename tok locs where e: "p = (filename, tok, locs)" by (cases p) auto
    with p assms(2) have "distinct (map loc_folder locs)" by auto
    then show "(case map_of by_name (fst p) of None \<Rightarrow> []
       | Some new_file_data \<Rightarrow> compare_file (fst p) (snd p) new_file_data) = []"
      by (simp add: present [OF p]) (simp add: e compare_file_same)
  qed
  show ?thesis
    unfolding compare_size_def new case_prod_beta
    by (simp add: report_new_def report_removed_def same)
qed

lemma compare_data_same:
  assumes "distinct (map fst data)"
    and "\<forall>(sz, by_name) \<in> set data. distinct (map fst by_name) \<and>
           (\<forall>(filename, tok, locs) \<in> set by_name. distinct (map loc_folder locs))"
  shows "compare_data data data = []"
proof -
  have present: "\<And>p. p \<in> set data \<Longrightarrow> map_of data (fst p) = Some (snd p)"
    using assms(1) by (simp add: map_of_is_SomeI)
  have new: "filter (\<lambda>(sz, by_name). map_of data sz = None) data = []"
    using present by (auto simp: filter_empty_conv)
  have same: "\<And>p. p \<in> set data \<Longrightarrow>
      (case map_of data (fst p) of None \<Rightarrow> []
       | Some new_files \<Rightarrow> compare_size (fst p) (snd p) new_files) = []"
  proof -
    fix p assume p: "p \<in> set data"
    obtain sz by_name where e: "p = (sz, by_name)" by (cases p) auto
    with p assms(2) have "compare_size sz by_name by_name = []"
      by (intro compare_size_same) auto
    then show "(case map_of data (fst p) of None \<Rightarrow> []
       | Some new_files \<Rightarrow> compare_size (fst p) (snd p) new_files) = []"
      by (simp add: present [OF p]) (simp add: e)
  qed
  show ?thesis
    unfolding compare_data_def new case_prod_beta
    by (simp add: same)
qed

lemma distinct_fold_update:
  "distinct (map fst acc) \<Longrightarrow>
   distinct (map fst (fold (\<lambda>x acc. AList.update (k x) (v x) acc) xs acc))"
  by (induction xs arbitrary: acc) (simp_all add: distinct_update)

lemma set_update_cases:
  "p \<in> set (AList.update k v al) \<Longrightarrow> p = (k, v) \<or> p \<in> set al"
  by (induction al) (auto split: if_splits)

lemma set_fold_update_cases:
  "p \<in> set (fold (\<lambda>x acc. AList.update (k x) (v x) acc) xs acc) \<Longrightarrow>
   p \<in> set acc \<or> (\<exists>x\<in>set xs. p = (k x, v x))"
proof (induction xs arbitrary: acc)
  case Nil
  then show ?case by simp
next
  case (Cons x xs)
  from Cons.prems have "p \<in> set (fold (\<lambda>x acc. AList.update (k x) (v x) acc) xs
      (AList.update (k x) (v x) acc))" by simp
  from Cons.IH [OF this] show ?case
    using set_update_cases [of p "k x" "v x" acc] by auto
qed

lemma index_files_entries:
  "distinct (map fst (index_files entries)) \<and>
   (\<forall>p \<in> set (index_files entries). \<exists>e \<in> set entries. snd (snd p) = fe_locations e)"
proof
  show "distinct (map fst (index_files entries))"
    unfolding index_files_def by (rule distinct_fold_update) simp
  show "\<forall>p \<in> set (index_files entries). \<exists>e \<in> set entries. snd (snd p) = fe_locations e"
  proof
    fix p assume "p \<in> set (index_files entries)"
    then have "p \<in> set [] \<or> (\<exists>e\<in>set entries. p = (fe_filename e, get_ToK e, fe_locations e))"
      unfolding index_files_def by (rule set_fold_update_cases)
    then show "\<exists>e \<in> set entries. snd (snd p) = fe_locations e" by auto
  qed
qed

lemma index_json_groups:
  "distinct (map fst (index_json json)) \<and>
   (\<forall>p \<in> set (index_json json). \<exists>g \<in> set json. snd p = index_files (sg_files g))"
proof
  show "distinct (map fst (index_json json))"
    unfolding index_json_def by (rule distinct_fold_update) simp
  show "\<forall>p \<in> set (index_json json). \<exists>g \<in> set json. snd p = index_files (sg_files g)"
  proof
    fix p assume "p \<in> set (index_json json)"
    then have "p \<in> set [] \<or> (\<exists>g\<in>set json. p = (sg_size g, index_files (sg_files g)))"
      unfolding index_json_def by (rule set_fold_update_cases)
    then show "\<exists>g \<in> set json. snd p = index_files (sg_files g)" by auto
  qed
qed

lemma compare_json_same:
  assumes "\<forall>g \<in> set json. \<forall>e \<in> set (sg_files g). distinct (map loc_folder (fe_locations e))"
  shows "compare_data (index_json json) (index_json json) = []"
proof (rule compare_data_same)
  show "distinct (map fst (index_json json))"
    using index_json_groups by blast
  show "\<forall>(sz, by_name) \<in> set (index_json json). distinct (map fst by_name) \<and>
           (\<forall>(filename, tok, locs) \<in> set by_name. distinct (map loc_folder locs))"
  proof (intro ballI, unfold case_prod_beta, intro conjI ballI)
    fix p assume "p \<in> set (index_json json)"
    then obtain g where g: "g \<in> set json" "snd p = index_files (sg_files g)"
      using index_json_groups by blast
    show "distinct (map fst (snd p))"
      using g(2) index_files_entries by simp
    fix q assume "q \<in> set (snd p)"
    with g(2) obtain e where "e \<in> set (sg_files g)" "snd (snd q) = fe_locations e"
      using index_files_entries [of "sg_files g"] by auto
    with g(1) assms show "distinct (map loc_folder (snd (snd q)))"
      by auto
  qed
qed

lemma distinct_add_file_info:
  "distinct (map fst acc) \<Longrightarrow> distinct (map fst (add_file_info info acc))"
  by (cases info) (simp add: add_file_info_def Let_def distinct_update split: prod.splits)

lemma distinct_fold_add_file_info:
  "distinct (map fst acc) \<Longrightarrow> distinct (map fst (fold add_file_info infos acc))"
  by (induction infos arbitrary: acc) (simp_all add: distinct_add_file_info)

lemma folders_add_file_info:
  "(case map_of (add_file_info info acc) base of None \<Rightarrow> [] | Some v \<Rightarrow> map loc_folder (snd v)) =
   (case map_of acc base of None \<Rightarrow> [] | Some v \<Rightarrow> map loc_folder (snd v)) @
   (if fst info = base then [fst (snd (snd info))] else [])"
  by (cases info)
     (auto simp: add_file_info_def Let_def update_conv' split: prod.splits option.splits)

lemma folders_fold_add_file_info:
  "(case map_of (fold add_file_info infos acc) base of None \<Rightarrow> [] | Some v \<Rightarrow> map loc_folder (snd v)) =
   (case map_of acc base of None \<Rightarrow> [] | Some v \<Rightarrow> map loc_folder (snd v)) @
   map (\<lambda>i. fst (snd (snd i))) (filter (\<lambda>i. fst i = base) infos)"
proof (induction infos arbitrary: acc)
  case Nil
  then show ?case by simp
next
  case (Cons info infos)
  show ?case
    unfolding fold_simps Cons.IH folders_add_file_info by simp
qed

lemma distinct_folders_of_base:
  "distinct (map (\<lambda>i. (f i, g i)) xs) \<Longrightarrow> distinct (map g (filter (\<lambda>i. f i = b) xs))"
  by (induction xs) (auto simp: image_iff)

lemma files_array_folders:
  assumes "distinct (map (\<lambda>i. (fst i, fst (snd (snd i)))) infos)"
    and "e \<in> set (files_array infos)"
  shows "distinct (map loc_folder (fe_locations e))"
proof -
  from assms(2) obtain p where p: "p \<in> set (fold add_file_info infos [])"
    and e: "fe_locations e = snd (snd p)"
    unfolding files_array_def by (auto simp: case_prod_beta)
  have "distinct (map fst (fold add_file_info infos []))"
    by (rule distinct_fold_add_file_info) simp
  with p have "map_of (fold add_file_info infos []) (fst p) = Some (snd p)"
    by (simp add: map_of_is_SomeI)
  with folders_fold_add_file_info [of infos "[]" "fst p"]
  have "map loc_folder (snd (snd p)) =
      map (\<lambda>i. fst (snd (snd i))) (filter (\<lambda>i. fst i = fst p) infos)"
    by simp
  with assms(1) show ?thesis
    by (simp add: e distinct_folders_of_base)
qed

lemma create_json_output_folders:
  assumes "\<forall>(sz, infos) \<in> set pdf_dict. distinct (map (\<lambda>i. (fst i, fst (snd (snd i)))) infos)"
  shows "\<forall>g \<in> set (create_json_output pdf_dict only_duplicates).
           \<forall>e \<in> set (sg_files g). distinct (map loc_folder (fe_locations e))"
proof (intro ballI)
  fix g e
  assume g: "g \<in> set (create_json_output pdf_dict only_duplicates)" and e: "e \<in> set (sg_files g)"
  from g obtain p where "p \<in> set pdf_dict" and "sg_files g = files_array (snd p)"
    unfolding create_json_output_def Let_def by (auto simp: case_prod_beta split: if_splits)
  with assms e show "distinct (map loc_folder (fe_locations e))"
    by (intro files_array_folders [of "snd p"]) auto
qed

lemma compare_same_scan_distinct_folders:
  assumes "\<forall>(sz, infos) \<in> set pdf_dict. distinct (map (\<lambda>i. (fst i, fst (snd (snd i)))) infos)"
  shows "compare_pdf_scans (Some (create_json_output pdf_dict only_duplicates)) pdf_dict only_duplicates
         = (False, [])"
  using compare_json_same [OF create_json_output_folders [OF assms, of only_duplicates]]
  by (simp add: compare_pdf_scans_def)

end
